theory Spec2Isabelle
  imports Complex_Main "HOL-Library.Word"
begin

section \<open>Address lists\<close>

text \<open>
  Both consistency tests and the benchmark take the cluster as a comma-separated list of
  \<open>host:port\<close> addresses. The failover test parses and prints that list itself.
\<close>

text \<open>
  \<open>std::getline(stream, item, delim)\<close> on the unread rest of a string stream: at the end
  of the stream nothing is extracted and the call fails (\<open>None\<close>); otherwise the characters
  before the first delimiter are the item, and the delimiter is consumed with them.
\<close>

definition getline :: "string \<Rightarrow> char \<Rightarrow> (string \<times> string) option" where
  "getline stream delim =
     (if stream = [] then None
      else Some (takeWhile (\<lambda>c. c \<noteq> delim) stream,
                 drop 1 (dropWhile (\<lambda>c. c \<noteq> delim) stream)))"

text \<open>\<open>item.find(c)\<close>: the position of the first \<open>c\<close>, or \<open>npos\<close> (\<open>None\<close>).\<close>

definition string_find :: "string \<Rightarrow> char \<Rightarrow> nat option" where
  "string_find item c =
     (if c \<in> set item then Some (length (takeWhile (\<lambda>x. x \<noteq> c) item)) else None)"

text \<open>\<open>item.substr(pos, n)\<close> and \<open>item.substr(pos)\<close>, for \<open>pos \<le> item.size()\<close>.\<close>

definition substr :: "string \<Rightarrow> nat \<Rightarrow> nat \<Rightarrow> string" where
  "substr item pos n = take n (drop pos item)"

definition substr_from :: "string \<Rightarrow> nat \<Rightarrow> string" where
  "substr_from item pos = drop pos item"

text \<open>
  Modelled from the spec: the macro \<open>PANIC\<close> comes from the client library's Debug header,
  which is not among the sources. It reports the formatted message and ends the process at
  once; the message of the only use is \<open>Invalid format: \<close> followed by the item.
\<close>

datatype fatal = InvalidFormat string

text \<open>
  The loop of \<open>parseHostPortList\<close>: \<open>stream\<close> is the unread input, \<open>result\<close> the vector built
  so far.
\<close>

function parseLoop ::
  "string \<Rightarrow> (string \<times> string) list \<Rightarrow> fatal + (string \<times> string) list" where
  "parseLoop stream result =
     (case getline stream CHR '','' of
        None \<Rightarrow> Inr result
      | Some (item, rest) \<Rightarrow>
          (case string_find item CHR '':'' of
             Some colonPos \<Rightarrow>
               (let host = substr item 0 colonPos;
                    port = substr_from item (colonPos + 1)
                in parseLoop rest (result @ [(host, port)]))
           | None \<Rightarrow> Inl (InvalidFormat item)))"
  by pat_completeness auto
termination
proof (relation "measure (\<lambda>(stream, result). length stream)")
  show "wf (measure (\<lambda>(stream, result). length stream))"
    by simp
next
  fix stream :: string and result :: "(string \<times> string) list"
    and x2 :: "string \<times> string" and item rest :: string and colonPos host port
  assume "getline stream CHR '','' = Some x2" and "(item, rest) = x2"
  then have "stream \<noteq> []" and "rest = drop 1 (dropWhile (\<lambda>c. c \<noteq> CHR '','') stream)"
    by (auto simp: getline_def split: if_splits)
  moreover have "length (dropWhile (\<lambda>c. c \<noteq> CHR '','') stream) \<le> length stream"
    by (rule length_dropWhile_le)
  ultimately have "length rest < length stream"
    by (cases stream) auto
  then show "((rest, result @ [(host, port)]), (stream, result))
               \<in> measure (\<lambda>(stream, result). length stream)"
    by simp
qed

declare parseLoop.simps [simp del]

definition parseHostPortList :: "string \<Rightarrow> fatal + (string \<times> string) list" where
  "parseHostPortList input = parseLoop input []"

text \<open>
  \<open>joinHostPortList\<close>: the loop over the indices appends to the output stream. For the
  empty vector \<open>hosts.size() - 1\<close> wraps around, but the loop body is not entered.
\<close>

definition joinHostPortList :: "(string \<times> string) list \<Rightarrow> string" where
  "joinHostPortList hosts =
     foldl (\<lambda>oss i. oss @ fst (hosts ! i) @ '':'' @ snd (hosts ! i) @
                       (if i \<noteq> length hosts - 1 then '','' else []))
       [] [0..<length hosts]"

text \<open>
  The items that the loop \<open>while (std::getline(stream, item, ','))\<close> sees, taken alone.
\<close>

function getline_items :: "string \<Rightarrow> char \<Rightarrow> string list" where
  "getline_items stream delim =
     (case getline stream delim of
        None \<Rightarrow> []
      | Some (item, rest) \<Rightarrow> item # getline_items rest delim)"
  by pat_completeness auto
termination
proof (relation "measure (\<lambda>(stream, delim). length stream)")
  show "wf (measure (\<lambda>(stream, delim). length stream))"
    by simp
next
  fix stream :: string and delim :: char and x2 :: "string \<times> string" and item rest :: string
  assume "getline stream delim = Some x2" and "(item, rest) = x2"
  then have "stream \<noteq> []" and "rest = drop 1 (dropWhile (\<lambda>c. c \<noteq> delim) stream)"
    by (auto simp: getline_def split: if_splits)
  moreover have "length (dropWhile (\<lambda>c. c \<noteq> delim) stream) \<le> length stream"
    by (rule length_dropWhile_le)
  ultimately have "length rest < length stream"
    by (cases stream) auto
  then show "((rest, delim), (stream, delim)) \<in> measure (\<lambda>(stream, delim). length stream)"
    by simp
qed

declare getline_items.simps [simp del]

text \<open>
  The specification's reading of an item, for comparison with the code: the input is split
  on the delimiter, so that \<open>n\<close> delimiters separate \<open>n + 1\<close> pieces, empty ones included.
\<close>

fun split_on :: "char \<Rightarrow> string \<Rightarrow> string list" where
  "split_on delim [] = [[]]"
| "split_on delim (c # cs) =
     (if c = delim then [] # split_on delim cs
      else (case split_on delim cs of
              [] \<Rightarrow> [[c]]
            | piece # pieces \<Rightarrow> (c # piece) # pieces))"


section \<open>The cluster as the test programs see it\<close>

text \<open>
  Modelled from the spec: the state of a server as its statistics report it
  (\<open>ServerStats_Raft\<close> of the protocol definitions, which are not among the sources). The
  programs compare it with \<open>LEADER\<close> only.
\<close>

datatype RaftState = FOLLOWER | CANDIDATE | LEADER

text \<open>
  What a program does to the outside, in the order it does it. A \<open>Cluster\<close> object is a
  handle, numbered as it is constructed; every later call names the handle it goes through.
  The destructor at the end of the object's scope is \<open>Disconnect\<close>.
\<close>

datatype call =
    Connect nat string
  | Disconnect nat
  | GetServerStats nat string
  | MakeDirectory nat string
  | Write nat string string
  | Read nat string
  | MakePartition nat string
  | Sleep nat

datatype logline = NOTICE string | WARNING string | STDERR string

record world =
  calls :: "call list"
  log :: "logline list"
  shell :: "string list"
  handles :: nat

text \<open>
  The cluster itself is outside the programs. Its answer to a call may depend on everything
  that happened before: each field maps the calls so far, the current one last, to the
  answer, where \<open>Inl what\<close> is a \<open>LogCabin::Client::Exception\<close> with that message.
\<close>

record service =
  getServerStatsEx_r :: "call list \<Rightarrow> string + RaftState"
  makeDirectoryEx_r :: "call list \<Rightarrow> string + unit"
  writeEx_r :: "call list \<Rightarrow> string + unit"
  readEx_r :: "call list \<Rightarrow> string + string"
  debugMakePartition_r :: "call list \<Rightarrow> string + unit"

text \<open>
  A statement either completes with a value or stops the normal flow: an exception in
  flight, a call of \<open>exit\<close>, or an abort (\<open>PANIC\<close>, a failed \<open>assert\<close>).
\<close>

datatype stop = Throw string | Exit nat | Abort string

type_synonym 'a prog = "world \<Rightarrow> (stop + 'a) \<times> world"

definition ret :: "'a \<Rightarrow> 'a prog" where
  "ret x = (\<lambda>s. (Inr x, s))"

definition bnd :: "'a prog \<Rightarrow> ('a \<Rightarrow> 'b prog) \<Rightarrow> 'b prog" where
  "bnd m f = (\<lambda>s. case m s of (Inl e, s') \<Rightarrow> (Inl e, s') | (Inr x, s') \<Rightarrow> f x s')"

definition writeLog :: "logline \<Rightarrow> unit prog" where
  "writeLog line = (\<lambda>s. (Inr (), s\<lparr>log := log s @ [line]\<rparr>))"

definition exit :: "nat \<Rightarrow> 'a prog" where
  "exit code = (\<lambda>s. (Inl (Exit code), s))"

definition invoke :: "call \<Rightarrow> (call list \<Rightarrow> string + 'a) \<Rightarrow> 'a prog" where
  "invoke c respond =
     (\<lambda>s. let s' = s\<lparr>calls := calls s @ [c]\<rparr>
          in case respond (calls s') of
               Inl what \<Rightarrow> (Inl (Throw what), s')
             | Inr v \<Rightarrow> (Inr v, s'))"

definition getServerStatsEx :: "service \<Rightarrow> nat \<Rightarrow> string \<Rightarrow> RaftState prog" where
  "getServerStatsEx E h hostPort = invoke (GetServerStats h hostPort) (getServerStatsEx_r E)"

definition makeDirectoryEx :: "service \<Rightarrow> nat \<Rightarrow> string \<Rightarrow> unit prog" where
  "makeDirectoryEx E h path = invoke (MakeDirectory h path) (makeDirectoryEx_r E)"

definition writeEx :: "service \<Rightarrow> nat \<Rightarrow> string \<Rightarrow> string \<Rightarrow> unit prog" where
  "writeEx E h path contents = invoke (Write h path contents) (writeEx_r E)"

definition readEx :: "service \<Rightarrow> nat \<Rightarrow> string \<Rightarrow> string prog" where
  "readEx E h path = invoke (Read h path) (readEx_r E)"

definition debugMakePartition :: "service \<Rightarrow> nat \<Rightarrow> string \<Rightarrow> unit prog" where
  "debugMakePartition E h hostPort = invoke (MakePartition h hostPort) (debugMakePartition_r E)"

definition sleep_for :: "nat \<Rightarrow> unit prog" where
  "sleep_for ms = (\<lambda>s. (Inr (), s\<lparr>calls := calls s @ [Sleep ms]\<rparr>))"

text \<open>
  A block that declares a \<open>Cluster\<close>: the constructor takes the next handle; the destructor
  runs when the block is left normally or by an exception, and not when the process ends
  inside the block.
\<close>

definition openCluster :: "string \<Rightarrow> world \<Rightarrow> nat \<times> world" where
  "openCluster addresses s =
     (handles s, s\<lparr>calls := calls s @ [Connect (handles s) addresses], handles := handles s + 1\<rparr>)"

fun closeCluster :: "nat \<Rightarrow> (stop + 'a) \<times> world \<Rightarrow> (stop + 'a) \<times> world" where
  "closeCluster h (Inr v, s) = (Inr v, s\<lparr>calls := calls s @ [Disconnect h]\<rparr>)"
| "closeCluster h (Inl (Throw what), s) = (Inl (Throw what), s\<lparr>calls := calls s @ [Disconnect h]\<rparr>)"
| "closeCluster h (Inl (Exit code), s) = (Inl (Exit code), s)"
| "closeCluster h (Inl (Abort msg), s) = (Inl (Abort msg), s)"

definition withCluster :: "string \<Rightarrow> (nat \<Rightarrow> 'a prog) \<Rightarrow> 'a prog" where
  "withCluster addresses body =
     (\<lambda>s. case openCluster addresses s of (h, s1) \<Rightarrow> closeCluster h (body h s1))"

text \<open>\<open>PANIC("Invalid format: %s", item.c_str())\<close> at the place where the list is used.\<close>

definition parsed :: "string \<Rightarrow> (string \<times> string) list prog" where
  "parsed input =
     (case parseHostPortList input of
        Inl (InvalidFormat item) \<Rightarrow> (\<lambda>s. (Inl (Abort (''Invalid format: '' @ item)), s))
      | Inr hosts \<Rightarrow> ret hosts)"

text \<open>How a process ends: \<open>exit\<close> or the return from \<open>main\<close> with a status, or an abort.\<close>

datatype processEnd = Exited nat | Aborted string


section \<open>The failover test\<close>

record OptionParser =
  cluster :: string

text \<open>\<open>executeCommand\<close> has an empty body: the command is not run.\<close>

definition executeCommand :: "string \<Rightarrow> world \<Rightarrow> world" where
  "executeCommand command s = s"

fun setupLatencyLoop :: "(string \<times> string) list \<Rightarrow> world \<Rightarrow> world" where
  "setupLatencyLoop [] s = s"
| "setupLatencyLoop (hostPort # hosts) s =
     (let port = snd hostPort;
          s1 = executeCommand (''sudo nft add rule inet logcabin_test input tcp dport '' @ port @
                 '' limit rate 100 bytes/second'') s;
          s2 = executeCommand (''sudo nft add rule inet logcabin_test output tcp sport '' @ port @
                 '' limit rate 100 bytes/second'') s1
      in setupLatencyLoop hosts s2)"

definition setupLatency :: "string \<Rightarrow> unit prog" where
  "setupLatency clusterStr =
     bnd (writeLog (NOTICE ''Setting up artificial network latency...'')) (\<lambda>_.
     bnd (parsed clusterStr) (\<lambda>hosts.
     bnd (\<lambda>s. (Inr (), setupLatencyLoop hosts s)) (\<lambda>_.
     writeLog (NOTICE ''Artificial latency setup complete.''))))"

definition partitionServer :: "service \<Rightarrow> nat \<Rightarrow> string \<Rightarrow> string \<Rightarrow> unit prog" where
  "partitionServer E h clusterStr port =
     bnd (writeLog (NOTICE (''Blocking process on port '' @ port @
            '' from communicating with peers''))) (\<lambda>_.
     (let targetHostPort = ''localhost:'' @ port
      in bnd (debugMakePartition E h targetHostPort) (\<lambda>_.
         writeLog (NOTICE (''Process on port '' @ port @
           '' blocked from communicating with others.'')))))"

text \<open>\<open>cleanup\<close> is registered with \<open>atexit\<close>; it cannot fail.\<close>

definition cleanup :: "world \<Rightarrow> world" where
  "cleanup s =
     (let s1 = s\<lparr>log := log s @ [NOTICE ''Cleaning up nftables rules...'']\<rparr>;
          s2 = executeCommand ''sudo nft flush table inet logcabin_test'' s1;
          s3 = executeCommand ''sudo nft delete table inet logcabin_test'' s2
      in s3\<lparr>log := log s3 @ [NOTICE ''Cleanup complete.'']\<rparr>)"

fun leaderPortLoop :: "service \<Rightarrow> nat \<Rightarrow> (string \<times> string) list \<Rightarrow> string prog" where
  "leaderPortLoop E h [] s = (Inr [], s)"
| "leaderPortLoop E h (hostPort # hosts) s =
     (let hostPortStr = fst hostPort @ '':'' @ snd hostPort
      in case getServerStatsEx E h hostPortStr s of
           (Inl e, s1) \<Rightarrow> (Inl e, s1)
         | (Inr stats, s1) \<Rightarrow>
             if stats = LEADER then (Inr (snd hostPort), s1)
             else leaderPortLoop E h hosts s1)"

definition leaderPort :: "service \<Rightarrow> nat \<Rightarrow> string \<Rightarrow> string prog" where
  "leaderPort E h clusterStr = bnd (parsed clusterStr) (\<lambda>hosts. leaderPortLoop E h hosts)"

text \<open>
  The body of \<open>main\<close>, in the order of the source. First the block of \<open>cluster1\<close>: find the
  leader, write \<open>foo\<close>, cut the leader off. Its value is \<open>oldLeaderPort\<close>.
\<close>

definition seedAndPartition :: "service \<Rightarrow> OptionParser \<Rightarrow> string prog" where
  "seedAndPartition E options =
     withCluster (cluster options) (\<lambda>cluster1.
       bnd (leaderPort E cluster1 (cluster options)) (\<lambda>oldLeaderPort.
       bnd (writeLog (NOTICE (''Found leader on port '' @ oldLeaderPort @
              '', creating test file with '' @ [CHR 0x27] @ ''foo'' @ [CHR 0x27]))) (\<lambda>_.
       bnd (makeDirectoryEx E cluster1 ''/ConsistencyTest'') (\<lambda>_.
       bnd (writeEx E cluster1 ''/ConsistencyTest/test'' ''foo'') (\<lambda>_.
       bnd (partitionServer E cluster1 (cluster options) oldLeaderPort) (\<lambda>_.
       ret oldLeaderPort))))))"

text \<open>The hosts that remain when those on the old leader's port are erased, joined again.\<close>

definition remainingHosts :: "OptionParser \<Rightarrow> string \<Rightarrow> string prog" where
  "remainingHosts options oldLeaderPort =
     bnd (parsed (cluster options)) (\<lambda>hosts.
     (let hosts' = filter (\<lambda>elem. \<not> snd elem = oldLeaderPort) hosts;
          cluster2str = joinHostPortList hosts'
      in bnd (writeLog (NOTICE (''Remaining hosts: '' @ cluster2str))) (\<lambda>_.
         ret cluster2str)))"

text \<open>
  The loop \<open>while (true)\<close> that waits for a new leader has no bound: where no remaining
  server ever reports to be the leader it does not end, and the result is \<open>None\<close>.
\<close>

partial_function (option) awaitNewLeader ::
  "service \<Rightarrow> nat \<Rightarrow> string \<Rightarrow> world \<Rightarrow> ((stop + unit) \<times> world) option" where
  "awaitNewLeader E cluster2 cluster2str s =
     (case leaderPort E cluster2 cluster2str s of
        (Inl e, s1) \<Rightarrow> Some (Inl e, s1)
      | (Inr newLeaderPort, s1) \<Rightarrow>
          if newLeaderPort \<noteq> []
          then Some (writeLog (NOTICE (''Found NEW leader on port '' @ newLeaderPort)) s1)
          else awaitNewLeader E cluster2 cluster2str (snd (sleep_for 100 s1)))"

declare awaitNewLeader.simps [code]

text \<open>The block of \<open>cluster2\<close>: wait for the new leader, then write \<open>bar\<close>.\<close>

definition electAndWrite ::
  "service \<Rightarrow> string \<Rightarrow> world \<Rightarrow> ((stop + unit) \<times> world) option" where
  "electAndWrite E cluster2str s =
     (case openCluster cluster2str s of
        (cluster2, s1) \<Rightarrow>
          (case awaitNewLeader E cluster2 cluster2str s1 of
             None \<Rightarrow> None
           | Some (Inl e, s2) \<Rightarrow> Some (closeCluster cluster2 (Inl e, s2))
           | Some (Inr u, s2) \<Rightarrow>
               Some (closeCluster cluster2
                 (bnd (writeLog (NOTICE ''Writing bar'')) (\<lambda>_.
                  writeEx E cluster2 ''/ConsistencyTest/test'' ''bar'') s2))))"

text \<open>The last lines of the \<open>try\<close> block: read the file and compare it with \<open>bar\<close>.\<close>

definition verifyRead :: "service \<Rightarrow> nat \<Rightarrow> unit prog" where
  "verifyRead E cluster3 =
     bnd (writeLog (NOTICE ''Reading from old leader'')) (\<lambda>_.
     bnd (readEx E cluster3 ''/ConsistencyTest/test'') (\<lambda>contents.
     bnd (writeLog (NOTICE (''Read '' @ contents))) (\<lambda>_.
     if contents \<noteq> ''bar''
     then writeLog (NOTICE (''Consistency violation, '' @ contents @ '' != bar''))
     else ret ())))"

text \<open>The scope of \<open>cluster3\<close>: ask the old leader alone who leads, then read.\<close>

definition verifyOldLeader :: "service \<Rightarrow> string \<Rightarrow> unit prog" where
  "verifyOldLeader E oldLeaderPort =
     bnd (writeLog (NOTICE ''Reconnect to old leader'')) (\<lambda>_.
     withCluster (''localhost:'' @ oldLeaderPort) (\<lambda>cluster3.
       bnd (writeLog (NOTICE ''Verifying old leader is still leader'')) (\<lambda>_.
       bnd (leaderPort E cluster3 (''localhost:'' @ oldLeaderPort)) (\<lambda>leaderPort3.
       if leaderPort3 \<noteq> oldLeaderPort
       then bnd (writeLog (NOTICE (''Old leader is no longer leader, now it'' @ [CHR 0x27] @
                   ''s '' @ leaderPort3))) (\<lambda>_.
            exit 2)
       else verifyRead E cluster3))))"

definition tryBlock :: "service \<Rightarrow> OptionParser \<Rightarrow> world \<Rightarrow> ((stop + unit) \<times> world) option" where
  "tryBlock E options s =
     (case bnd (setupLatency (cluster options)) (\<lambda>_.
           bnd (seedAndPartition E options) (\<lambda>oldLeaderPort.
           bnd (remainingHosts options oldLeaderPort) (\<lambda>cluster2str.
           ret (oldLeaderPort, cluster2str)))) s of
        (Inl e, s1) \<Rightarrow> Some (Inl e, s1)
      | (Inr (oldLeaderPort, cluster2str), s1) \<Rightarrow>
          (case electAndWrite E cluster2str s1 of
             None \<Rightarrow> None
           | Some (Inl e, s2) \<Rightarrow> Some (Inl e, s2)
           | Some (Inr u, s2) \<Rightarrow> Some (verifyOldLeader E oldLeaderPort s2)))"

text \<open>
  How the process ends: the handler of \<open>main\<close> turns an exception into a warning and
  \<open>exit(1)\<close>; falling off the end of \<open>main\<close> returns 0; \<open>exit\<close> and the return from \<open>main\<close>
  run \<open>cleanup\<close>, an abort does not.
\<close>

fun failoverEnd :: "(stop + unit) \<times> world \<Rightarrow> processEnd \<times> world" where
  "failoverEnd (Inr u, s) = (Exited 0, cleanup s)"
| "failoverEnd (Inl (Exit code), s) = (Exited code, cleanup s)"
| "failoverEnd (Inl (Throw what), s) =
     (Exited 1, cleanup (s\<lparr>log := log s @
        [WARNING (''Exiting due to LogCabin::Client::Exception: '' @ what)]\<rparr>))"
| "failoverEnd (Inl (Abort msg), s) = (Aborted msg, s)"

definition failoverMain :: "service \<Rightarrow> OptionParser \<Rightarrow> world \<Rightarrow> (processEnd \<times> world) option" where
  "failoverMain E options s = map_option failoverEnd (tryBlock E options s)"

definition world0 :: world where
  "world0 = \<lparr>calls = [], log = [], shell = [], handles = 0\<rparr>"


section \<open>The consistency loop\<close>

record ConsistencyOptions = OptionParser +
  logPolicy :: string

text \<open>\<open>std::to_string\<close> of an \<open>int\<close>: decimal digits, with a minus sign below zero.\<close>

definition digit :: "nat \<Rightarrow> char" where
  "digit d = ''0123456789'' ! d"

function to_string_nat :: "nat \<Rightarrow> string" where
  "to_string_nat n = (if n < 10 then [digit n] else to_string_nat (n div 10) @ [digit (n mod 10)])"
  by pat_completeness auto
termination
  by (relation "measure (\<lambda>n. n)") auto

declare to_string_nat.simps [simp del]

definition to_string :: "int \<Rightarrow> string" where
  "to_string i = (if i < 0 then CHR ''-'' # to_string_nat (nat (- i)) else to_string_nat (nat i))"

text \<open>\<open>assert\<close>, compiled in: a false condition aborts the process.\<close>

definition assert :: "bool \<Rightarrow> unit prog" where
  "assert b = (\<lambda>s. if b then (Inr (), s) else (Inl (Abort ''Assertion failed''), s))"

text \<open>One pass through the body of the loop, for the loop variable \<open>i\<close>.\<close>

definition consistencyRound :: "service \<Rightarrow> ConsistencyOptions \<Rightarrow> int \<Rightarrow> unit prog" where
  "consistencyRound E options i =
     bnd (withCluster (cluster options) (\<lambda>cluster.
            bnd (makeDirectoryEx E cluster ''/ConsistencyTest'') (\<lambda>_.
            writeEx E cluster ''/ConsistencyTest/test'' (to_string i)))) (\<lambda>_.
     withCluster (cluster options) (\<lambda>cluster.
       bnd (readEx E cluster ''/ConsistencyTest/test'') (\<lambda>contents.
       bnd (assert (contents = to_string i)) (\<lambda>_.
       sleep_for 100))))"

text \<open>
  The loop \<open>for (int i = 0; i < 10; ++i)\<close>. The variable never leaves the range from 0 to
  10, so it is an unbounded integer here.
\<close>

function consistencyLoop :: "service \<Rightarrow> ConsistencyOptions \<Rightarrow> int \<Rightarrow> unit prog" where
  "consistencyLoop E options i s =
     (if i < 10
      then (case consistencyRound E options i s of
              (Inl e, s1) \<Rightarrow> (Inl e, s1)
            | (Inr u, s1) \<Rightarrow> consistencyLoop E options (i + 1) s1)
      else (Inr (), s))"
  by pat_completeness auto
termination
  by (relation "measure (\<lambda>(E, options, i, s). nat (10 - i))") auto

declare consistencyLoop.simps [simp del]

fun consistencyEnd :: "(stop + unit) \<times> world \<Rightarrow> processEnd \<times> world" where
  "consistencyEnd (Inr u, s) = (Exited 0, s)"
| "consistencyEnd (Inl (Exit code), s) = (Exited code, s)"
| "consistencyEnd (Inl (Throw what), s) =
     (Exited 1, s\<lparr>log := log s @
        [STDERR (''Exiting due to LogCabin::Client::Exception: '' @ what)]\<rparr>)"
| "consistencyEnd (Inl (Abort msg), s) = (Aborted msg, s)"

definition consistencyMain :: "service \<Rightarrow> ConsistencyOptions \<Rightarrow> world \<Rightarrow> processEnd \<times> world" where
  "consistencyMain E options s = consistencyEnd (consistencyLoop E options 0 s)"

section \<open>The benchmark\<close>

type_synonym u64 = "64 word"

datatype OperationType = READ | WRITE

text \<open>
  The fields of the benchmark's \<open>OptionParser\<close>, read after the command line is parsed. The
  field \<open>size\<close> of the source is \<open>valueSize\<close> here.
\<close>

record BenchmarkOptions = ConsistencyOptions +
  valueSize :: u64
  threads :: u64
  operationType :: OperationType
  totalOperations :: u64
  timeout :: u64
  opsPerSecFileName :: string

text \<open>
  The first lines of \<open>operationThreadMain\<close>: the number of operations of the thread \<open>id\<close>
  (\<open>id'\<close> here), in \<open>uint64_t\<close> arithmetic. The division traps in the source when \<open>threads\<close>
  is zero; \<open>main\<close> starts no thread then.
\<close>

definition numOperations :: "BenchmarkOptions \<Rightarrow> u64 \<Rightarrow> u64" where
  "numOperations options id' =
     (let n = totalOperations options div threads options
      in if totalOperations options - n * threads options > id' then n + 1 else n)"

text \<open>The thread numbers that the loop \<open>for (i = 0; i < options.threads; ++i)\<close> of \<open>main\<close> hands out.\<close>

definition threadIds :: "BenchmarkOptions \<Rightarrow> u64 list" where
  "threadIds options = map of_nat [0..<unat (threads options)]"

text \<open>
  Modelled from the spec: the status of a result of the client library, whose header is not
  among the sources. The benchmark names \<open>OK\<close> and \<open>LOOKUP_ERROR\<close> (the key is not there)
  only; the other constructors stand for every other failure.
\<close>

datatype Status = OK | INVALID_ARGUMENT | LOOKUP_ERROR | TYPE_ERROR | CONDITION_NOT_MET | TIMEOUT

record Result =
  status :: Status
  error :: string

text \<open>
  What one thread meets in its \<open>i\<close>-th pass through the loop: the value of the shared flag
  \<open>exit\<close> as it reads it, the result of \<open>tree.read\<close>, and whether \<open>tree.writeEx\<close> throws (with
  the message of the exception).
\<close>

record threadView =
  exitFlag :: "nat \<Rightarrow> bool"
  readResult :: "nat \<Rightarrow> Result"
  writeExThrows :: "nat \<Rightarrow> string option"

text \<open>
  How the thread function ends: it returns; it ends the process with \<open>::exit\<close> after a line
  on the error stream; or an exception leaves it, which nothing catches in a thread, so the
  runtime terminates the process abnormally.
\<close>

datatype threadEnd = Returned | ProcessExit nat string | Terminated string

text \<open>
  The loop of \<open>operationThreadMain\<close>; the last component of the result is \<open>operationsDone\<close>.
\<close>

function operationThreadLoop ::
  "threadView \<Rightarrow> string \<Rightarrow> OperationType \<Rightarrow> u64 \<Rightarrow> u64 \<Rightarrow> u64 \<Rightarrow> threadEnd \<times> u64" where
  "operationThreadLoop view key opType numOps i operationsDone =
     (if i < numOps
      then (if exitFlag view (unat i) then (Returned, operationsDone)
            else if opType = READ
            then (if status (readResult view (unat i)) \<noteq> OK \<and>
                     status (readResult view (unat i)) \<noteq> LOOKUP_ERROR
                  then (ProcessExit 1
                          (''Read key '' @ [CHR 0x27] @ key @ [CHR 0x27] @ '': '' @
                           error (readResult view (unat i))),
                        operationsDone)
                  else operationThreadLoop view key opType numOps (i + 1) (i + 1))
            else (case writeExThrows view (unat i) of
                    Some what \<Rightarrow> (Terminated what, operationsDone)
                  | None \<Rightarrow> operationThreadLoop view key opType numOps (i + 1) (i + 1)))
      else (Returned, operationsDone))"
  by pat_completeness auto
termination
proof (relation "measure (\<lambda>(view, key, opType, numOps, i, operationsDone). unat numOps - unat i)")
  show "wf (measure (\<lambda>(view, key, opType, numOps, i, operationsDone). unat numOps - unat i))"
    by simp
next
  fix view :: threadView and key :: string and opType :: OperationType
    and numOps i operationsDone :: u64
  assume "i < numOps"
  then have less: "unat i < unat numOps"
    by (simp add: word_less_nat_alt)
  moreover have "unat numOps < 2 ^ 64"
    using unsigned_less [of numOps, where 'a = nat] by simp
  ultimately have "unat i + 1 < 2 ^ 64"
    by simp
  then have "unat (i + 1) = unat i + 1"
    by (simp add: unat_word_ariths)
  then have "unat numOps - unat (i + 1) < unat numOps - unat i"
    using less by simp
  then show "((view, key, opType, numOps, i + 1, i + 1), (view, key, opType, numOps, i, operationsDone))
               \<in> measure (\<lambda>(view, key, opType, numOps, i, operationsDone). unat numOps - unat i)"
       "((view, key, opType, numOps, i + 1, i + 1), (view, key, opType, numOps, i, operationsDone))
               \<in> measure (\<lambda>(view, key, opType, numOps, i, operationsDone). unat numOps - unat i)"
    by simp_all
qed

declare operationThreadLoop.simps [simp del]

definition operationThreadMain ::
  "threadView \<Rightarrow> u64 \<Rightarrow> BenchmarkOptions \<Rightarrow> string \<Rightarrow> OperationType \<Rightarrow> threadEnd \<times> u64" where
  "operationThreadMain view id' options key opType =
     operationThreadLoop view key opType (numOperations options id') 0 0"


subsection \<open>The throughput written at the end of the run\<close>








section \<open>Concrete inputs and auxiliary notions\<close>

text \<open>
  An endpoint as parsing produces it: no colon and no comma in the host, no comma in the
  port.
\<close>

definition plainEndpoint :: "string \<times> string \<Rightarrow> bool" where
  "plainEndpoint hp \<longleftrightarrow>
     CHR '':'' \<notin> set (fst hp) \<and> CHR '','' \<notin> set (fst hp) \<and> CHR '','' \<notin> set (snd hp)"

text \<open>Ten operations for three threads.\<close>

definition options_10_3 :: BenchmarkOptions where
  "options_10_3 = \<lparr>cluster = ''logcabin:5254'', logPolicy = [], valueSize = 1024,
     threads = 3, operationType = READ, totalOperations = 10, timeout = 30000000000,
     opsPerSecFileName = []\<rparr>"

text \<open>
  A pass through the worker loop that lets the loop go on: the flag is not set, and the
  read ends with \<open>OK\<close> or \<open>LOOKUP_ERROR\<close>, or the write does not throw.
\<close>

definition tolerated :: "threadView \<Rightarrow> OperationType \<Rightarrow> nat \<Rightarrow> bool" where
  "tolerated view opType k \<longleftrightarrow>
     \<not> exitFlag view k \<and>
     (if opType = READ
      then status (readResult view k) = OK \<or> status (readResult view k) = LOOKUP_ERROR
      else writeExThrows view k = None)"

text \<open>A thread that never finds the key, and one that meets a timeout later on.\<close>

definition keyMissing :: threadView where
  "keyMissing = \<lparr>exitFlag = (\<lambda>k. False),
     readResult = (\<lambda>k. \<lparr>status = LOOKUP_ERROR, error = ''not found''\<rparr>),
     writeExThrows = (\<lambda>k. None)\<rparr>"

definition timeoutLater :: threadView where
  "timeoutLater = \<lparr>exitFlag = (\<lambda>k. False),
     readResult = (\<lambda>k. if k < 2 then \<lparr>status = LOOKUP_ERROR, error = ''not found''\<rparr>
                          else \<lparr>status = TIMEOUT, error = ''timed out''\<rparr>),
     writeExThrows = (\<lambda>k. if k = 1 then Some ''timed out'' else None)\<rparr>"

text \<open>
  Clusters for the failover test: one where every server asked says it leads and the file
  still reads \<open>foo\<close>; one where no server ever leads; one where the server asked on
  \<open>localhost:1\<close> has stepped down and the file reads \<open>bar\<close>.
\<close>

definition everyoneLeads :: service where
  "everyoneLeads = \<lparr>getServerStatsEx_r = (\<lambda>h. Inr LEADER), makeDirectoryEx_r = (\<lambda>h. Inr ()),
     writeEx_r = (\<lambda>h. Inr ()), readEx_r = (\<lambda>h. Inr ''foo''),
     debugMakePartition_r = (\<lambda>h. Inr ())\<rparr>"

definition nobodyLeads :: service where
  "nobodyLeads = \<lparr>getServerStatsEx_r = (\<lambda>h. Inr FOLLOWER), makeDirectoryEx_r = (\<lambda>h. Inr ()),
     writeEx_r = (\<lambda>h. Inr ()), readEx_r = (\<lambda>h. Inr ''foo''),
     debugMakePartition_r = (\<lambda>h. Inr ())\<rparr>"

fun askedHost :: "call \<Rightarrow> string" where
  "askedHost (GetServerStats h hostPort) = hostPort"
| "askedHost c = []"

definition oldLeaderStepsDown :: service where
  "oldLeaderStepsDown = \<lparr>
     getServerStatsEx_r =
       (\<lambda>h. if askedHost (last h) = ''localhost:1'' then Inr FOLLOWER else Inr LEADER),
     makeDirectoryEx_r = (\<lambda>h. Inr ()),
     writeEx_r = (\<lambda>h. Inr ()), readEx_r = (\<lambda>h. Inr ''bar''),
     debugMakePartition_r = (\<lambda>h. Inr ())\<rparr>"

text \<open>A cluster that returns on a read what was written last.\<close>

fun lastWrite :: "call list \<Rightarrow> string" where
  "lastWrite [] = []"
| "lastWrite (Write h path contents # cs) = (if lastWrite cs = [] then contents else lastWrite cs)"
| "lastWrite (c # cs) = lastWrite cs"

definition readsLastWrite :: service where
  "readsLastWrite = \<lparr>getServerStatsEx_r = (\<lambda>h. Inr LEADER), makeDirectoryEx_r = (\<lambda>h. Inr ()),
     writeEx_r = (\<lambda>h. Inr ()), readEx_r = (\<lambda>h. Inr (lastWrite h)),
     debugMakePartition_r = (\<lambda>h. Inr ())\<rparr>"

text \<open>Rounds one after the other, until one of them stops.\<close>

fun roundsInOrder :: "service \<Rightarrow> ConsistencyOptions \<Rightarrow> int list \<Rightarrow> unit prog" where
  "roundsInOrder E options [] = ret ()"
| "roundsInOrder E options (i # is) =
     bnd (consistencyRound E options i) (\<lambda>_. roundsInOrder E options is)"


section \<open>Address lists: parsing and printing\<close>

subsection \<open>getline items\<close>

lemma getline_items_Nil: "getline_items [] d = []"
  by (simp add: getline_items.simps getline_def)

lemma getline_items_delim: "getline_items (d # cs) d = [] # getline_items cs d"
  by (simp add: getline_items.simps [of "d # cs"] getline_def)

lemma getline_items_other:
  assumes "c \<noteq> d"
  shows "getline_items (c # cs) d =
           (case getline_items cs d of [] \<Rightarrow> [[c]] | x # xs \<Rightarrow> (c # x) # xs)"
proof (cases cs)
  case Nil
  then show ?thesis
    using assms by (simp add: getline_items.simps [of "[c]"] getline_def getline_items_Nil)
next
  case (Cons a as)
  then show ?thesis
    using assms
    by (simp add: getline_items.simps [of "c # a # as"] getline_items.simps [of "a # as"]
          getline_def)
qed

lemma split_on_not_Nil: "split_on d s \<noteq> []"
  by (induction s) (auto split: list.splits)

lemma getline_items_split_on:
  "getline_items s d =
     (if last (split_on d s) = [] then butlast (split_on d s) else split_on d s)"
proof (induction s)
  case Nil
  then show ?case by (simp add: getline_items_Nil)
next
  case (Cons c cs)
  show ?case
  proof (cases "c = d")
    case True
    then show ?thesis
      using Cons split_on_not_Nil [of d cs] by (simp add: getline_items_delim)
  next
    case False
    obtain p ps where sp: "split_on d cs = p # ps"
      using split_on_not_Nil [of d cs] by (cases "split_on d cs") auto
    show ?thesis
      using False Cons sp by (auto simp: getline_items_other split: if_splits)
  qed
qed

lemma getline_items_no_delim: "item \<in> set (getline_items s d) \<Longrightarrow> d \<notin> set item"
proof (induction s arbitrary: item)
  case Nil
  then show ?case by (simp add: getline_items_Nil)
next
  case (Cons c cs)
  show ?case
  proof (cases "c = d")
    case True
    then show ?thesis using Cons by (auto simp: getline_items_delim)
  next
    case False
    then show ?thesis
      using Cons by (cases "getline_items cs d") (auto simp: getline_items_other)
  qed
qed

subsection \<open>parse = items, then each item\<close>

lemma split_at_colon:
  assumes "string_find item CHR '':'' = Some colonPos"
  shows "substr item 0 colonPos = takeWhile (\<lambda>c. c \<noteq> CHR '':'') item"
    and "substr_from item (colonPos + 1) = drop 1 (dropWhile (\<lambda>c. c \<noteq> CHR '':'') item)"
    and "substr_from item (Suc colonPos) = drop 1 (dropWhile (\<lambda>c. c \<noteq> CHR '':'') item)"
proof -
  have pos: "colonPos = length (takeWhile (\<lambda>c. c \<noteq> CHR '':'') item)"
    using assms by (simp add: string_find_def split: if_splits)
  show "substr item 0 colonPos = takeWhile (\<lambda>c. c \<noteq> CHR '':'') item"
    by (simp only: substr_def pos drop_0 takeWhile_eq_take [symmetric])
  have "drop (Suc colonPos) item = drop 1 (drop colonPos item)"
    by simp
  also have "drop colonPos item = dropWhile (\<lambda>c. c \<noteq> CHR '':'') item"
    by (simp only: pos dropWhile_eq_drop)
  finally show "substr_from item (Suc colonPos) =
      drop 1 (dropWhile (\<lambda>c. c \<noteq> CHR '':'') item)"
    by (simp only: substr_from_def)
  then show "substr_from item (colonPos + 1) =
      drop 1 (dropWhile (\<lambda>c. c \<noteq> CHR '':'') item)"
    by simp
qed

lemma string_find_None: "string_find item c = None \<longleftrightarrow> c \<notin> set item"
  by (simp add: string_find_def)

lemma parseLoop_items:
  "parseLoop stream acc =
     (case find (\<lambda>item. CHR '':'' \<notin> set item) (getline_items stream CHR '','') of
        Some item \<Rightarrow> Inl (InvalidFormat item)
      | None \<Rightarrow>
          Inr (acc @ map (\<lambda>item. (takeWhile (\<lambda>c. c \<noteq> CHR '':'') item,
                                   drop 1 (dropWhile (\<lambda>c. c \<noteq> CHR '':'') item)))
                       (getline_items stream CHR '','')))"
proof (induction stream acc rule: parseLoop.induct)
  case (1 stream result)
  show ?case
  proof (cases "getline stream CHR '',''")
    case None
    then show ?thesis
      by (simp add: parseLoop.simps [of stream] getline_items.simps [of stream])
  next
    case (Some a)
    obtain item rest where a: "a = (item, rest)" by (cases a)
    show ?thesis
    proof (cases "string_find item CHR '':''")
      case None
      then have "CHR '':'' \<notin> set item"
        by (simp add: string_find_None)
      then show ?thesis
        using None \<open>getline stream CHR '','' = Some a\<close> a
        by (simp add: parseLoop.simps [of stream] getline_items.simps [of stream])
    next
      case (Some colonPos)
      have colon: "CHR '':'' \<in> set item"
        using Some string_find_None [of item "CHR '':''"] by auto
      note IH = "1.IH" [OF \<open>getline stream CHR '','' = Some a\<close> a [symmetric] Some refl refl,
          unfolded split_at_colon [OF Some]]
      show ?thesis
        using Some a \<open>getline stream CHR '','' = Some a\<close> colon IH
        by (simp add: parseLoop.simps [of stream] getline_items.simps [of stream]
              split_at_colon [OF Some] split: option.splits)
    qed
  qed
qed

subsection \<open>join\<close>

lemma foldl_append_concat: "foldl (\<lambda>oss i. oss @ f i) acc xs = acc @ concat (map f xs)"
  by (induction xs arbitrary: acc) auto

lemma joinHostPortList_Nil: "joinHostPortList [] = []"
  by (simp add: joinHostPortList_def)

lemma joinHostPortList_single: "joinHostPortList [hp] = fst hp @ '':'' @ snd hp"
  by (simp add: joinHostPortList_def)

lemma joinHostPortList_Cons:
  "joinHostPortList (hp # hp' # hosts) =
     fst hp @ '':'' @ snd hp @ '','' @ joinHostPortList (hp' # hosts)"
proof -
  let ?f = "\<lambda>hs i. fst (hs ! i) @ '':'' @ snd (hs ! i) @ (if i \<noteq> length hs - 1 then '','' else [])"
  have "joinHostPortList (hp # hp' # hosts) =
        concat (map (?f (hp # hp' # hosts)) [0..<Suc (Suc (length hosts))])"
    by (simp only: joinHostPortList_def foldl_append_concat append_Nil length_Cons)
  also have "[0..<Suc (Suc (length hosts))] = 0 # map Suc [0..<Suc (length hosts)]"
    by (metis map_Suc_upt upt_conv_Cons zero_less_Suc)
  also have "concat (map (?f (hp # hp' # hosts)) (0 # map Suc [0..<Suc (length hosts)])) =
             ?f (hp # hp' # hosts) 0 @
             concat (map (\<lambda>i. ?f (hp # hp' # hosts) (Suc i)) [0..<Suc (length hosts)])"
    by (simp add: comp_def)
  also have "map (\<lambda>i. ?f (hp # hp' # hosts) (Suc i)) [0..<Suc (length hosts)] =
             map (?f (hp' # hosts)) [0..<Suc (length hosts)]"
    by (intro map_cong) auto
  also have "concat (map (?f (hp' # hosts)) [0..<Suc (length hosts)]) =
             joinHostPortList (hp' # hosts)"
    by (simp only: joinHostPortList_def foldl_append_concat append_Nil length_Cons)
  finally show ?thesis
    by simp
qed

subsection \<open>round trip\<close>

lemma getline_item_rest:
  assumes "CHR '','' \<notin> set item" and "item \<noteq> []"
  shows "getline (item @ CHR '','' # rest) CHR '','' = Some (item, rest)"
    and "getline item CHR '','' = Some (item, [])"
proof -
  have all: "\<forall>c \<in> set item. c \<noteq> CHR '',''"
    using assms(1) by auto
  then have dw: "dropWhile (\<lambda>c. c \<noteq> CHR '','') item = []"
    and tw: "takeWhile (\<lambda>c. c \<noteq> CHR '','') item = item"
    by simp_all
  show "getline (item @ CHR '','' # rest) CHR '','' = Some (item, rest)"
    using all assms(2) by (simp add: getline_def)
  show "getline item CHR '','' = Some (item, [])"
    using assms(2) dw tw by (simp only: getline_def if_False drop_Nil)
qed

lemma string_find_hostPort:
  assumes "CHR '':'' \<notin> set host"
  shows "string_find (host @ CHR '':'' # port) CHR '':'' = Some (length host)"
proof -
  have "\<forall>c \<in> set host. c \<noteq> CHR '':''"
    using assms by auto
  then show ?thesis
    by (simp add: string_find_def)
qed

lemma parseLoop_join:
  assumes "\<forall>hp \<in> set hosts. plainEndpoint hp"
  shows "parseLoop (joinHostPortList hosts) acc = Inr (acc @ hosts)"
  using assms
proof (induction hosts arbitrary: acc rule: induct_list012)
  case 1
  then show ?case
    by (simp add: joinHostPortList_Nil parseLoop.simps [of "[]"] getline_def)
next
  case (2 hp)
  obtain host port where hp: "hp = (host, port)" by (cases hp)
  have plain: "CHR '':'' \<notin> set host" "CHR '','' \<notin> set host" "CHR '','' \<notin> set port"
    using 2 hp by (auto simp: plainEndpoint_def)
  have "getline (host @ CHR '':'' # port) CHR '','' = Some (host @ CHR '':'' # port, [])"
    using plain by (intro getline_item_rest(2)) auto
  moreover have "parseLoop [] acc' = Inr acc'" for acc'
    by (simp add: parseLoop.simps [of "[]"] getline_def)
  ultimately show ?case
    using plain hp
    by (simp add: joinHostPortList_single parseLoop.simps [of "host @ CHR '':'' # port"]
          string_find_hostPort substr_def substr_from_def)
next
  case (3 hp hp' hosts)
  obtain host port where hp: "hp = (host, port)" by (cases hp)
  have plain: "CHR '':'' \<notin> set host" "CHR '','' \<notin> set host" "CHR '','' \<notin> set port"
    using 3(3) hp by (auto simp: plainEndpoint_def)
  have g: "getline ((host @ CHR '':'' # port) @ CHR '','' # joinHostPortList (hp' # hosts)) CHR '','' =
        Some (host @ CHR '':'' # port, joinHostPortList (hp' # hosts))"
    using plain by (intro getline_item_rest(1)) auto
  have IH: "parseLoop (joinHostPortList (hp' # hosts)) (acc @ [(host, port)]) =
            Inr ((acc @ [(host, port)]) @ hp' # hosts)"
    using 3(2) [of "acc @ [(host, port)]"] 3(3) by simp
  show ?case
    using plain hp g IH
    by (simp add: joinHostPortList_Cons
          parseLoop.simps [of "host @ CHR '':'' # port @ CHR '','' # joinHostPortList (hp' # hosts)"]
          string_find_hostPort substr_def substr_from_def)
qed

lemma parsed_plain:
  assumes "parseHostPortList input = Inr hosts"
  shows "\<forall>hp \<in> set hosts. plainEndpoint hp"
proof -
  let ?items = "getline_items input CHR '',''"
  let ?split = "\<lambda>item. (takeWhile (\<lambda>c. c \<noteq> CHR '':'') item,
                          drop 1 (dropWhile (\<lambda>c. c \<noteq> CHR '':'') item))"
  have "hosts = map ?split ?items"
    using assms by (simp add: parseHostPortList_def parseLoop_items split: option.splits)
  moreover have "plainEndpoint (?split item)" if "item \<in> set ?items" for item
  proof -
    have no: "CHR '','' \<notin> set item"
      using that by (rule getline_items_no_delim)
    have "CHR '':'' \<notin> set (takeWhile (\<lambda>c. c \<noteq> CHR '':'') item)"
      by (auto dest: set_takeWhileD)
    moreover have "CHR '','' \<notin> set (takeWhile (\<lambda>c. c \<noteq> CHR '':'') item)"
      using no by (auto dest: set_takeWhileD)
    moreover have "CHR '','' \<notin> set (drop 1 (dropWhile (\<lambda>c. c \<noteq> CHR '':'') item))"
      using no by (auto dest!: in_set_dropD set_dropWhileD)
    ultimately show ?thesis
      by (simp add: plainEndpoint_def)
  qed
  ultimately show ?thesis
    by auto
qed

text \<open>
  Claim C5. Whenever \<open>parseHostPortList\<close> returns a list of endpoints for some input,
  printing that list with \<open>joinHostPortList\<close> and parsing the text again returns the same
  list.
\<close>

theorem parse_join_roundtrip:
  assumes "parseHostPortList input = Inr hosts"
  shows "parseHostPortList (joinHostPortList hosts) = Inr hosts"
  using parseLoop_join [OF parsed_plain [OF assms], of "[]"]
  by (simp add: parseHostPortList_def)

text \<open>
  An input with a second colon, an empty host and port, and a comma at the end: the text
  printed differs from the input, and parses to the same list.
\<close>

theorem parse_join_roundtrip_witness:
  "parseHostPortList ''a:1:2,:,'' = Inr [(''a'', ''1:2''), ([], [])] \<and>
   joinHostPortList [(''a'', ''1:2''), ([], [])] = ''a:1:2,:'' \<and>
   parseHostPortList (joinHostPortList [(''a'', ''1:2''), ([], [])]) =
     Inr [(''a'', ''1:2''), ([], [])]"
proof -
  have h: "parseHostPortList ''a:1:2,:,'' = Inr [(''a'', ''1:2''), ([], [])]"
    by (simp add: parseHostPortList_def parseLoop.simps getline_def string_find_def
          substr_def substr_from_def)
  have "joinHostPortList [(''a'', ''1:2''), ([], [])] = ''a:1:2,:''"
    by (simp add: joinHostPortList_def upt_rec [of _ 2])
  then show ?thesis
    using h parse_join_roundtrip [OF h] by simp
qed

subsection \<open>What counts as an item\<close>

text \<open>
  The specification's pieces and the items of the code differ on one point: the code does
  not see an empty piece after the last comma, nor the single empty piece of the empty
  input. There the claim C9, read with the pieces, fails: the input \<open>a:1,\<close> has an empty
  last piece, which has no colon, and parsing succeeds.
\<close>

theorem parse_trailing_comma_counterexample:
  "split_on CHR '','' ''a:1,'' = [''a:1'', []] \<and>
   CHR '':'' \<notin> set (last (split_on CHR '','' ''a:1,'')) \<and>
   parseHostPortList ''a:1,'' = Inr [(''a'', ''1'')]"
  by (simp add: parseHostPortList_def parseLoop.simps getline_def string_find_def
        substr_def substr_from_def)

text \<open>
  Claim C9, amended. The items of an input are its comma-separated pieces, except that an
  empty last piece is no item. If some item has no colon, parsing fails with the format
  error that names the first such item, and no list is returned. Otherwise parsing returns
  the endpoints of the items in order, each item split at its first colon.
\<close>

theorem parseHostPortList_items:
  "getline_items input CHR '','' =
     (if last (split_on CHR '','' input) = [] then butlast (split_on CHR '','' input)
      else split_on CHR '','' input) \<and>
   parseHostPortList input =
     (case find (\<lambda>item. CHR '':'' \<notin> set item) (getline_items input CHR '','') of
        Some item \<Rightarrow> Inl (InvalidFormat item)
      | None \<Rightarrow>
          Inr (map (\<lambda>item. (takeWhile (\<lambda>c. c \<noteq> CHR '':'') item,
                              drop 1 (dropWhile (\<lambda>c. c \<noteq> CHR '':'') item)))
                 (getline_items input CHR '','')))"
proof -
  have "parseHostPortList input =
     (case find (\<lambda>item. CHR '':'' \<notin> set item) (getline_items input CHR '','') of
        Some item \<Rightarrow> Inl (InvalidFormat item)
      | None \<Rightarrow>
          Inr (map (\<lambda>item. (takeWhile (\<lambda>c. c \<noteq> CHR '':'') item,
                              drop 1 (dropWhile (\<lambda>c. c \<noteq> CHR '':'') item)))
                 (getline_items input CHR '','')))"
    by (simp add: parseHostPortList_def parseLoop_items split: option.splits)
  then show ?thesis
    using getline_items_split_on [of input "CHR '',''"] by (simp only: simp_thms)
qed

text \<open>
  An input whose second and fourth items lack the colon: the error names the second item,
  and the first endpoint is not returned.
\<close>

theorem parseHostPortList_items_witness:
  "getline_items ''a:1,b,c:3,d'' CHR '','' = [''a:1'', ''b'', ''c:3'', ''d''] \<and>
   find (\<lambda>item. CHR '':'' \<notin> set item) [''a:1'', ''b'', ''c:3'', ''d''] = Some ''b'' \<and>
   parseHostPortList ''a:1,b,c:3,d'' = Inl (InvalidFormat ''b'')"
proof -
  have items: "getline_items ''a:1,b,c:3,d'' CHR '','' = [''a:1'', ''b'', ''c:3'', ''d'']"
    by (simp add: getline_items.simps getline_def)
  have first: "find (\<lambda>item. CHR '':'' \<notin> set item) [''a:1'', ''b'', ''c:3'', ''d''] = Some ''b''"
    by simp
  have "parseHostPortList ''a:1,b,c:3,d'' = Inl (InvalidFormat ''b'')"
    using parseHostPortList_items [of "''a:1,b,c:3,d''"]
    by (simp only: items first option.case)
  then show ?thesis
    using items first by simp
qed

section \<open>The benchmark: shares of the threads\<close>

lemma unat_share_rest:
  fixes M T :: u64
  shows "unat (M - (M div T) * T) = unat M mod unat T"
proof -
  have le: "unat M div unat T * unat T \<le> unat M"
    by simp
  have lt: "unat M < 2 ^ 64"
    using unsigned_less [of M, where 'a = nat] by simp
  have "unat ((M div T) * T) = (unat (M div T) * unat T) mod 2 ^ 64"
    by (simp add: unat_word_ariths)
  also have "\<dots> = (unat M div unat T * unat T) mod 2 ^ 64"
    by (simp only: unat_div)
  also have "\<dots> = unat M div unat T * unat T"
    using le_less_trans [OF le lt] by (rule mod_less)
  finally have mul: "unat ((M div T) * T) = unat M div unat T * unat T" .
  have "(M div T) * T \<le> M"
    using le mul by (simp add: word_le_nat_alt)
  then have "unat (M - (M div T) * T) = unat M - unat ((M div T) * T)"
    by (rule unat_sub)
  then show ?thesis
    using mul by (simp add: minus_div_mult_eq_mod)
qed

lemma unat_share_succ:
  fixes M T k :: u64
  assumes "T \<noteq> 0" and "unat k < unat M mod unat T"
  shows "unat (M div T + 1) = unat M div unat T + 1"
proof -
  have "unat T \<noteq> 0"
    using assms(1) by (simp add: unsigned_eq_0_iff)
  moreover have "unat T \<noteq> 1"
    using assms(2) by auto
  ultimately have T2: "2 \<le> unat T"
    by arith
  have lt: "unat M < 2 ^ 64"
    using unsigned_less [of M, where 'a = nat] by simp
  have "unat M div unat T \<le> unat M div 2"
    using T2 by (simp add: div_le_mono2)
  then have "unat M div unat T + 1 < 2 ^ 64"
    using lt by simp
  then show ?thesis
    by (simp add: unat_word_ariths unat_div)
qed

lemma numOperations_unat:
  assumes "threads options \<noteq> 0"
  shows "unat (numOperations options k) =
           unat (totalOperations options) div unat (threads options) +
           (if unat k < unat (totalOperations options) mod unat (threads options) then 1 else 0)"
  using assms unat_share_succ [of "threads options" k "totalOperations options"]
  by (simp add: numOperations_def Let_def word_less_nat_alt unat_share_rest unat_div)

lemma sum_list_shares:
  "r \<le> n \<Longrightarrow> sum_list (map (\<lambda>k. q + (if k < r then 1 else 0)) [0..<n]) = n * q + (r::nat)"
proof (induction n arbitrary: r)
  case 0
  then show ?case by simp
next
  case (Suc n)
  show ?case
  proof (cases "r = Suc n")
    case True
    then have "sum_list (map (\<lambda>k. q + (if k < r then 1 else 0)) [0..<n]) =
               sum_list (map (\<lambda>k. q + (if k < n then 1 else 0)) [0..<n])"
      by (intro arg_cong [where f = sum_list] map_cong) auto
    then show ?thesis
      using Suc.IH [of n] True by simp
  next
    case False
    then have "r \<le> n" using Suc.prems by simp
    then show ?thesis
      using Suc.IH [of r] by simp
  qed
qed

lemma unat_threadId:
  "k < unat (T :: u64) \<Longrightarrow> unat (of_nat k :: u64) = k"
proof -
  assume "k < unat T"
  moreover have "unat T < 2 ^ 64"
    using unsigned_less [of T, where 'a = nat] by simp
  ultimately have "k < 2 ^ 64" by simp
  then show ?thesis
    by (simp add: unat_of_nat)
qed

text \<open>
  Claim C4. For every number of operations and every number of threads other than zero,
  the thread \<open>k\<close> gets the quotient, and one more exactly when \<open>k\<close> is below the remainder;
  the shares of the threads that \<open>main\<close> starts add up to the number of operations, and no
  two shares differ by more than one.
\<close>

theorem balanced_split:
  assumes "threads options \<noteq> 0"
  shows "(\<forall>k. unat (numOperations options k) =
             unat (totalOperations options) div unat (threads options) +
             (if unat k < unat (totalOperations options) mod unat (threads options)
              then 1 else 0)) \<and>
         length (threadIds options) = unat (threads options) \<and>
         sum_list (map (\<lambda>k. unat (numOperations options k)) (threadIds options)) =
           unat (totalOperations options) \<and>
         (\<forall>j k. unat (numOperations options j) \<le> unat (numOperations options k) + 1)"
proof -
  let ?M = "unat (totalOperations options)" and ?T = "unat (threads options)"
  have "?T \<noteq> 0"
    using assms by (simp add: unsigned_eq_0_iff)
  then have T0: "0 < ?T"
    by simp
  have each: "unat (numOperations options k) = ?M div ?T + (if unat k < ?M mod ?T then 1 else 0)" for k
    using assms by (rule numOperations_unat)
  have "map (\<lambda>k. unat (numOperations options k)) (threadIds options) =
        map (\<lambda>k. ?M div ?T + (if k < ?M mod ?T then 1 else 0)) [0..<?T]"
    by (simp add: threadIds_def each unat_threadId [of _ "threads options"] comp_def)
  moreover have "?M mod ?T \<le> ?T"
    using T0 by simp
  ultimately have "sum_list (map (\<lambda>k. unat (numOperations options k)) (threadIds options)) =
                   ?T * (?M div ?T) + ?M mod ?T"
    by (simp add: sum_list_shares)
  then have total: "sum_list (map (\<lambda>k. unat (numOperations options k)) (threadIds options)) = ?M"
    by simp
  have near: "unat (numOperations options j) \<le> unat (numOperations options k) + 1" for j k
    by (simp add: each)
  show ?thesis
    using each total near by (simp add: threadIds_def)
qed

theorem balanced_split_witness:
  "threads options_10_3 \<noteq> 0 \<and>
   map (numOperations options_10_3) (threadIds options_10_3) = [4, 3, 3] \<and>
   sum_list (map (\<lambda>k. unat (numOperations options_10_3 k)) (threadIds options_10_3)) = 10"
proof -
  have h: "threads options_10_3 \<noteq> 0"
    by (simp add: options_10_3_def)
  have m: "map (numOperations options_10_3) (threadIds options_10_3) = [4, 3, 3]"
    by (simp add: options_10_3_def threadIds_def numOperations_def upt_rec [of _ 3])
  have t: "unat (totalOperations options_10_3) = 10"
    by (simp add: options_10_3_def)
  have "sum_list (map (\<lambda>k. unat (numOperations options_10_3 k)) (threadIds options_10_3)) =
        unat (totalOperations options_10_3)"
    using balanced_split [OF h] by (elim conjE)
  then show ?thesis
    using h m t by (simp only: simp_thms)
qed

section \<open>The benchmark: the loop of a thread\<close>

lemma unat_succ_below:
  fixes i n :: u64
  assumes "i < n"
  shows "unat (i + 1) = unat i + 1"
proof -
  have "unat i < unat n"
    using assms by (simp add: word_less_nat_alt)
  moreover have "unat n < 2 ^ 64"
    using unsigned_less [of n, where 'a = nat] by simp
  ultimately have "unat i + 1 < 2 ^ 64"
    by simp
  then show ?thesis
    by (simp add: unat_word_ariths)
qed

lemma loop_all_tolerated:
  assumes "\<forall>k. unat i \<le> k \<and> k < unat n \<longrightarrow> tolerated view opType k"
  shows "operationThreadLoop view key opType n i d = (Returned, if i < n then n else d)"
  using assms
proof (induction view key opType n i d rule: operationThreadLoop.induct)
  case (1 view key opType numOps i operationsDone)
  show ?case
  proof (cases "i < numOps")
    case False
    then show ?thesis
      by (simp add: operationThreadLoop.simps [of view key _ numOps i])
  next
    case True
    have suc: "unat (i + 1) = unat i + 1"
      using True by (rule unat_succ_below)
    have here: "tolerated view opType (unat i)"
      using "1.prems" True by (simp add: word_less_nat_alt)
    have rest: "\<forall>k. unat (i + 1) \<le> k \<and> k < unat numOps \<longrightarrow> tolerated view opType k"
      using "1.prems" suc by simp
    have last: "\<not> i + 1 < numOps \<Longrightarrow> i + 1 = numOps"
      using True suc by (simp add: word_less_nat_alt word_unat_eq_iff)
    show ?thesis
    proof (cases opType)
      case READ
      have "operationThreadLoop view key opType numOps (i + 1) (i + 1) =
            (Returned, if i + 1 < numOps then numOps else i + 1)"
        using here READ True rest
        by (intro "1.IH"(1)) (auto simp: tolerated_def)
      then show ?thesis
        using here READ True last
        by (auto simp: operationThreadLoop.simps [of view key _ numOps i] tolerated_def)
    next
      case WRITE
      have "operationThreadLoop view key opType numOps (i + 1) (i + 1) =
            (Returned, if i + 1 < numOps then numOps else i + 1)"
        using here WRITE True rest
        by (intro "1.IH"(2)) (auto simp: tolerated_def)
      then show ?thesis
        using here WRITE True last
        by (auto simp: operationThreadLoop.simps [of view key _ numOps i] tolerated_def)
    qed
  qed
qed


lemma loop_first_failure:
  assumes "unat i \<le> j" and "j < unat n"
    and "\<forall>k. unat i \<le> k \<and> k < j \<longrightarrow> tolerated view opType k"
    and "\<not> exitFlag view j"
    and "opType = READ \<and> status (readResult view j) \<noteq> OK \<and>
           status (readResult view j) \<noteq> LOOKUP_ERROR \<and>
           r = ProcessExit 1 (''Read key '' @ [CHR 0x27] @ key @ [CHR 0x27] @ '': '' @
                 error (readResult view j)) \<or>
         opType = WRITE \<and> writeExThrows view j = Some what \<and> r = Terminated what"
  shows "operationThreadLoop view key opType n i d = (r, if unat i = j then d else of_nat j)"
  using assms
proof (induction view key opType n i d rule: operationThreadLoop.induct)
  case (1 view key opType numOps i operationsDone)
  have below: "i < numOps"
    using "1.prems"(1,2) by (simp add: word_less_nat_alt)
  have suc: "unat (i + 1) = unat i + 1"
    using below by (rule unat_succ_below)
  show ?case
  proof (cases "unat i = j")
    case True
    then show ?thesis
      using below "1.prems"(4,5)
      by (auto simp: operationThreadLoop.simps [of view key _ numOps i])
  next
    case False
    then have less: "unat i < j"
      using "1.prems"(1) by simp
    then have here: "tolerated view opType (unat i)"
      using "1.prems"(3) by simp
    have next_le: "unat (i + 1) \<le> j"
      using less suc by simp
    have rest: "\<forall>k. unat (i + 1) \<le> k \<and> k < j \<longrightarrow> tolerated view opType k"
      using "1.prems"(3) suc by simp
    have same: "unat (i + 1) = j \<Longrightarrow> i + 1 = of_nat j"
      by auto
    show ?thesis
    proof (cases opType)
      case READ
      have "operationThreadLoop view key opType numOps (i + 1) (i + 1) =
            (r, if unat (i + 1) = j then i + 1 else of_nat j)"
        using here READ below next_le rest "1.prems"(2,4,5)
        by (intro "1.IH"(1)) (auto simp: tolerated_def)
      then show ?thesis
        using here READ below False same
        by (auto simp: operationThreadLoop.simps [of view key _ numOps i] tolerated_def)
    next
      case WRITE
      have "operationThreadLoop view key opType numOps (i + 1) (i + 1) =
            (r, if unat (i + 1) = j then i + 1 else of_nat j)"
        using here WRITE below next_le rest "1.prems"(2,4,5)
        by (intro "1.IH"(2)) (auto simp: tolerated_def)
      then show ?thesis
        using here WRITE below False same
        by (auto simp: operationThreadLoop.simps [of view key _ numOps i] tolerated_def)
    qed
  qed
qed

text \<open>
  Claim C6. A thread whose reads all end with \<open>OK\<close> or \<open>LOOKUP_ERROR\<close> returns normally
  after its full share of operations: a key that is not found does not end the run. At the
  first read with any other status the thread ends the whole process with \<open>exit(1)\<close>, after
  the operations done so far. A write has no such tolerated failure: the first exception
  of \<open>writeEx\<close> leaves the thread function and the process is terminated.
\<close>

theorem read_not_found_tolerated_others_fatal:
  "((\<forall>k < unat (numOperations options id'). tolerated view READ k) \<longrightarrow>
      operationThreadMain view id' options key READ = (Returned, numOperations options id')) \<and>
   (\<forall>j. j < unat (numOperations options id') \<and> (\<forall>k < j. tolerated view READ k) \<and>
        \<not> exitFlag view j \<and>
        status (readResult view j) \<noteq> OK \<and> status (readResult view j) \<noteq> LOOKUP_ERROR \<longrightarrow>
        operationThreadMain view id' options key READ =
          (ProcessExit 1 (''Read key '' @ [CHR 0x27] @ key @ [CHR 0x27] @ '': '' @
             error (readResult view j)), of_nat j)) \<and>
   (\<forall>j what. j < unat (numOperations options id') \<and> (\<forall>k < j. tolerated view WRITE k) \<and>
        \<not> exitFlag view j \<and> writeExThrows view j = Some what \<longrightarrow>
        operationThreadMain view id' options key WRITE = (Terminated what, of_nat j))"
proof (intro conjI allI impI)
  assume "\<forall>k < unat (numOperations options id'). tolerated view READ k"
  then have "operationThreadLoop view key READ (numOperations options id') 0 0 =
        (Returned, if 0 < numOperations options id' then numOperations options id' else 0)"
    by (intro loop_all_tolerated) simp
  then show "operationThreadMain view id' options key READ = (Returned, numOperations options id')"
    by (auto simp: operationThreadMain_def word_gt_0)
next
  fix j
  assume a: "j < unat (numOperations options id') \<and> (\<forall>k < j. tolerated view READ k) \<and>
        \<not> exitFlag view j \<and>
        status (readResult view j) \<noteq> OK \<and> status (readResult view j) \<noteq> LOOKUP_ERROR"
  have "operationThreadLoop view key READ (numOperations options id') 0 0 =
        (ProcessExit 1 (''Read key '' @ [CHR 0x27] @ key @ [CHR 0x27] @ '': '' @
             error (readResult view j)), if unat (0 :: u64) = j then 0 else of_nat j)"
    using a by (intro loop_first_failure) auto
  then show "operationThreadMain view id' options key READ =
          (ProcessExit 1 (''Read key '' @ [CHR 0x27] @ key @ [CHR 0x27] @ '': '' @
             error (readResult view j)), of_nat j)"
    by (auto simp: operationThreadMain_def)
next
  fix j what
  assume a: "j < unat (numOperations options id') \<and> (\<forall>k < j. tolerated view WRITE k) \<and>
        \<not> exitFlag view j \<and> writeExThrows view j = Some what"
  have "operationThreadLoop view key WRITE (numOperations options id') 0 0 =
        (Terminated what, if unat (0 :: u64) = j then 0 else of_nat j)"
    using a by (intro loop_first_failure [where what = what]) auto
  then show "operationThreadMain view id' options key WRITE = (Terminated what, of_nat j)"
    by (auto simp: operationThreadMain_def)
qed


theorem read_not_found_tolerated_others_fatal_witness:
  "operationThreadMain keyMissing 0 options_10_3 ''/bench'' READ = (Returned, 4) \<and>
   operationThreadMain timeoutLater 0 options_10_3 ''/bench'' READ =
     (ProcessExit 1 (''Read key '' @ [CHR 0x27] @ ''/bench'' @ [CHR 0x27] @ '': timed out''), 2) \<and>
   operationThreadMain timeoutLater 0 options_10_3 ''/bench'' WRITE = (Terminated ''timed out'', 1)"
proof -
  have n: "numOperations options_10_3 0 = 4"
    by (simp add: numOperations_def options_10_3_def)
  have all: "\<forall>k < unat (numOperations options_10_3 0). tolerated keyMissing READ k"
    by (simp add: tolerated_def keyMissing_def)
  have rd: "2 < unat (numOperations options_10_3 0) \<and> (\<forall>k < 2. tolerated timeoutLater READ k) \<and>
        \<not> exitFlag timeoutLater 2 \<and>
        status (readResult timeoutLater 2) \<noteq> OK \<and>
        status (readResult timeoutLater 2) \<noteq> LOOKUP_ERROR"
    by (simp add: n tolerated_def timeoutLater_def)
  have wr: "1 < unat (numOperations options_10_3 0) \<and> (\<forall>k < 1. tolerated timeoutLater WRITE k) \<and>
        \<not> exitFlag timeoutLater 1 \<and> writeExThrows timeoutLater 1 = Some ''timed out''"
    by (simp add: n tolerated_def timeoutLater_def)
  have "operationThreadMain keyMissing 0 options_10_3 ''/bench'' READ =
          (Returned, numOperations options_10_3 0)"
    using read_not_found_tolerated_others_fatal [of options_10_3 0 keyMissing "''/bench''"] all by blast
  moreover have "operationThreadMain timeoutLater 0 options_10_3 ''/bench'' READ =
     (ProcessExit 1 (''Read key '' @ [CHR 0x27] @ ''/bench'' @ [CHR 0x27] @ '': '' @
        error (readResult timeoutLater 2)), of_nat 2)"
    using read_not_found_tolerated_others_fatal [of options_10_3 0 timeoutLater "''/bench''"] rd by blast
  moreover have "operationThreadMain timeoutLater 0 options_10_3 ''/bench'' WRITE =
     (Terminated ''timed out'', of_nat 1)"
    using read_not_found_tolerated_others_fatal [of options_10_3 0 timeoutLater "''/bench''"] wr by blast
  ultimately show ?thesis
    by (simp add: n timeoutLater_def)
qed

section \<open>The benchmark: the throughput\<close>




section \<open>The failover test\<close>

lemmas prog_defs = bnd_def ret_def writeLog_def exit_def invoke_def getServerStatsEx_def
  makeDirectoryEx_def writeEx_def readEx_def debugMakePartition_def sleep_for_def
  openCluster_def withCluster_def parsed_def

lemmas failover_defs = failoverMain_def tryBlock_def setupLatency_def seedAndPartition_def
  leaderPort_def partitionServer_def remainingHosts_def electAndWrite_def awaitNewLeader.simps
  verifyOldLeader_def verifyRead_def cleanup_def executeCommand_def Let_def world0_def

lemmas parse_defs = parseHostPortList_def parseLoop.simps getline_def string_find_def
  substr_def substr_from_def

subsection \<open>setupLatency and cleanup\<close>

lemma setupLatencyLoop_id: "setupLatencyLoop hosts s = s"
  by (induction hosts arbitrary: s) (simp_all add: executeCommand_def)

text \<open>
  Claim C10. \<open>executeCommand\<close> does nothing, so \<open>setupLatency\<close> and \<open>cleanup\<close> run no
  command: for every input and every state they change the log and nothing else. (When
  the cluster string is malformed \<open>setupLatency\<close> panics after its first log line, again
  with nothing but the log changed.)
\<close>

theorem latency_cleanup_only_log:
  "executeCommand command s = s \<and>
   setupLatency clusterStr s =
     (case parseHostPortList clusterStr of
        Inl (InvalidFormat item) \<Rightarrow>
          (Inl (Abort (''Invalid format: '' @ item)),
           s\<lparr>log := log s @ [NOTICE ''Setting up artificial network latency...'']\<rparr>)
      | Inr hosts \<Rightarrow>
          (Inr (),
           s\<lparr>log := log s @ [NOTICE ''Setting up artificial network latency...'',
                                NOTICE ''Artificial latency setup complete.'']\<rparr>)) \<and>
   cleanup s =
     s\<lparr>log := log s @ [NOTICE ''Cleaning up nftables rules...'', NOTICE ''Cleanup complete.'']\<rparr>"
  by (simp add: executeCommand_def setupLatency_def cleanup_def prog_defs setupLatencyLoop_id
        split: sum.splits fatal.splits)

theorem latency_cleanup_only_log_witness:
  "executeCommand ''sudo nft flush table inet logcabin_test'' world0 = world0 \<and>
   setupLatency ''a:1,b:2'' world0 =
     (Inr (), \<lparr>calls = [], log = [NOTICE ''Setting up artificial network latency...'',
                                    NOTICE ''Artificial latency setup complete.''],
               shell = [], handles = 0\<rparr>) \<and>
   setupLatency ''a:1,b'' world0 =
     (Inl (Abort ''Invalid format: b''),
      \<lparr>calls = [], log = [NOTICE ''Setting up artificial network latency...''],
       shell = [], handles = 0\<rparr>) \<and>
   cleanup world0 =
     \<lparr>calls = [], log = [NOTICE ''Cleaning up nftables rules...'', NOTICE ''Cleanup complete.''],
      shell = [], handles = 0\<rparr>"
proof -
  have p: "parseHostPortList ''a:1,b:2'' = Inr [(''a'', ''1''), (''b'', ''2'')]"
    by (simp add: parseHostPortList_def parseLoop.simps getline_def string_find_def
          substr_def substr_from_def)
  have q: "parseHostPortList ''a:1,b'' = Inl (InvalidFormat ''b'')"
    by (simp add: parseHostPortList_def parseLoop.simps getline_def string_find_def
          substr_def substr_from_def)
  show ?thesis
    using latency_cleanup_only_log
        [of "''sudo nft flush table inet logcabin_test''" world0 "''a:1,b:2''"]
      latency_cleanup_only_log
        [of "''sudo nft flush table inet logcabin_test''" world0 "''a:1,b''"]
    by (simp add: p q world0_def)
qed

subsection \<open>Asking one server\<close>

lemma getline_items_single:
  assumes "d \<notin> set item" and "item \<noteq> []"
  shows "getline_items item d = [item]"
proof -
  have all: "\<forall>c \<in> set item. c \<noteq> d"
    using assms(1) by auto
  then have "dropWhile (\<lambda>c. c \<noteq> d) item = []" and "takeWhile (\<lambda>c. c \<noteq> d) item = item"
    by simp_all
  then have "getline item d = Some (item, [])"
    using assms(2) by (simp only: getline_def if_False drop_Nil)
  moreover have "getline_items [] d = []"
    by (simp add: getline_items.simps getline_def)
  ultimately show ?thesis
    by (simp add: getline_items.simps [of item])
qed

lemma parse_localhost:
  assumes "CHR '','' \<notin> set port"
  shows "parseHostPortList (''localhost:'' @ port) = Inr [(''localhost'', port)]"
proof -
  have "getline_items (''localhost:'' @ port) CHR '','' = [''localhost:'' @ port]"
    using assms by (intro getline_items_single) auto
  then show ?thesis
    by (simp add: parseHostPortList_def parseLoop_items)
qed

lemma leaderPort_localhost:
  assumes "CHR '','' \<notin> set port"
    and "getServerStatsEx_r E (calls s @ [GetServerStats h (''localhost:'' @ port)]) = Inr role"
  shows "leaderPort E h (''localhost:'' @ port) s =
           (Inr (if role = LEADER then port else []),
            s\<lparr>calls := calls s @ [GetServerStats h (''localhost:'' @ port)]\<rparr>)"
  using assms(2)
  by (simp add: leaderPort_def prog_defs parse_localhost [OF assms(1), simplified])


subsection \<open>The old leader answers\<close>

text \<open>
  Claim C1, amended. When the program reconnects to the old leader's own address and
  asks for its statistics: if the old leader still reports \<open>LEADER\<close>, the program goes on
  to the read step; if it reports another role (and a leader's port was recorded), the
  program logs that the old leader is no longer leader and exits with status 2, without
  reading.
\<close>

theorem verifyOldLeader_roles:
  assumes "CHR '','' \<notin> set oldLeaderPort"
    and "getServerStatsEx_r E
           (calls s @ [Connect (handles s) (''localhost:'' @ oldLeaderPort),
                       GetServerStats (handles s) (''localhost:'' @ oldLeaderPort)]) = Inr role"
  shows "(role = LEADER \<longrightarrow>
            verifyOldLeader E oldLeaderPort s =
              closeCluster (handles s)
                (verifyRead E (handles s)
                   (s\<lparr>calls := calls s @
                         [Connect (handles s) (''localhost:'' @ oldLeaderPort),
                          GetServerStats (handles s) (''localhost:'' @ oldLeaderPort)],
                       log := log s @
                         [NOTICE ''Reconnect to old leader'',
                          NOTICE ''Verifying old leader is still leader''],
                       handles := handles s + 1\<rparr>))) \<and>
         (role \<noteq> LEADER \<longrightarrow> oldLeaderPort \<noteq> [] \<longrightarrow>
            verifyOldLeader E oldLeaderPort s =
              (Inl (Exit 2),
               s\<lparr>calls := calls s @
                     [Connect (handles s) (''localhost:'' @ oldLeaderPort),
                      GetServerStats (handles s) (''localhost:'' @ oldLeaderPort)],
                   log := log s @
                     [NOTICE ''Reconnect to old leader'',
                      NOTICE ''Verifying old leader is still leader'',
                      NOTICE (''Old leader is no longer leader, now it'' @ [CHR 0x27] @ ''s '')],
                   handles := handles s + 1\<rparr>) \<and>
            fst (failoverEnd (verifyOldLeader E oldLeaderPort s)) = Exited 2)"
proof (cases s)
  case (fields c l sh n)
  let ?addr = "''localhost:'' @ oldLeaderPort"
  let ?s1 = "\<lparr>calls = c @ [Connect n ?addr],
              log = l @ [NOTICE ''Reconnect to old leader'',
                         NOTICE ''Verifying old leader is still leader''],
              shell = sh, handles = n + 1\<rparr>"
  have stats: "getServerStatsEx_r E (calls ?s1 @ [GetServerStats n ?addr]) = Inr role"
    using assms(2) fields by simp
  show ?thesis
    using leaderPort_localhost [OF assms(1) stats]
    by (simp add: fields verifyOldLeader_def bnd_def writeLog_def withCluster_def
          openCluster_def exit_def)
qed


theorem verifyOldLeader_roles_witness:
  "verifyOldLeader everyoneLeads ''1'' world0 =
     closeCluster 0 (verifyRead everyoneLeads 0
       \<lparr>calls = [Connect 0 ''localhost:1'', GetServerStats 0 ''localhost:1''],
        log = [NOTICE ''Reconnect to old leader'', NOTICE ''Verifying old leader is still leader''],
        shell = [], handles = 1\<rparr>) \<and>
   verifyOldLeader oldLeaderStepsDown ''1'' world0 =
     (Inl (Exit 2),
      \<lparr>calls = [Connect 0 ''localhost:1'', GetServerStats 0 ''localhost:1''],
       log = [NOTICE ''Reconnect to old leader'', NOTICE ''Verifying old leader is still leader'',
              NOTICE (''Old leader is no longer leader, now it'' @ [CHR 0x27] @ ''s '')],
       shell = [], handles = 1\<rparr>) \<and>
   fst (failoverEnd (verifyOldLeader oldLeaderStepsDown ''1'' world0)) = Exited 2"
proof -
  have comma: "CHR '','' \<notin> set ''1''"
    by simp
  have leads: "getServerStatsEx_r everyoneLeads
      (calls world0 @ [Connect (handles world0) (''localhost:'' @ ''1''),
                       GetServerStats (handles world0) (''localhost:'' @ ''1'')]) = Inr LEADER"
    by (simp add: everyoneLeads_def)
  have follows: "getServerStatsEx_r oldLeaderStepsDown
      (calls world0 @ [Connect (handles world0) (''localhost:'' @ ''1''),
                       GetServerStats (handles world0) (''localhost:'' @ ''1'')]) = Inr FOLLOWER"
    by (simp add: oldLeaderStepsDown_def)
  show ?thesis
    using verifyOldLeader_roles [OF comma leads] verifyOldLeader_roles [OF comma follows]
    by (simp add: world0_def)
qed

subsection \<open>The last read\<close>

text \<open>
  Claim C2, amended. In the read step, for every run that reaches it and whose read
  returns, the value read is compared with \<open>bar\<close>; when it differs, a notice of the
  consistency violation is logged; in both cases the run then ends with exit status 0.
\<close>

theorem verifyRead_exit_status:
  assumes "readEx_r E (calls s @ [Read cluster3 ''/ConsistencyTest/test'']) = Inr contents"
  shows "failoverEnd (closeCluster cluster3 (verifyRead E cluster3 s)) =
           (Exited 0,
            \<lparr>calls = calls s @ [Read cluster3 ''/ConsistencyTest/test'', Disconnect cluster3],
             log = log s @
               [NOTICE ''Reading from old leader'', NOTICE (''Read '' @ contents)] @
               (if contents \<noteq> ''bar''
                then [NOTICE (''Consistency violation, '' @ contents @ '' != bar'')] else []) @
               [NOTICE ''Cleaning up nftables rules...'', NOTICE ''Cleanup complete.''],
             shell = shell s, handles = handles s\<rparr>)"
proof (cases s)
  case (fields c l sh n)
  show ?thesis
    using assms
    by (simp add: fields verifyRead_def bnd_def ret_def writeLog_def readEx_def invoke_def
          cleanup_def executeCommand_def Let_def)
qed

theorem verifyRead_exit_status_witness:
  "failoverEnd (closeCluster 2 (verifyRead everyoneLeads 2 world0)) =
     (Exited 0,
      \<lparr>calls = [Read 2 ''/ConsistencyTest/test'', Disconnect 2],
       log = [NOTICE ''Reading from old leader'', NOTICE ''Read foo'',
              NOTICE ''Consistency violation, foo != bar'',
              NOTICE ''Cleaning up nftables rules...'', NOTICE ''Cleanup complete.''],
       shell = [], handles = 0\<rparr>) \<and>
   failoverEnd (closeCluster 2 (verifyRead oldLeaderStepsDown 2 world0)) =
     (Exited 0,
      \<lparr>calls = [Read 2 ''/ConsistencyTest/test'', Disconnect 2],
       log = [NOTICE ''Reading from old leader'', NOTICE ''Read bar'',
              NOTICE ''Cleaning up nftables rules...'', NOTICE ''Cleanup complete.''],
       shell = [], handles = 0\<rparr>)"
proof -
  have foo: "readEx_r everyoneLeads (calls world0 @ [Read 2 ''/ConsistencyTest/test'']) = Inr ''foo''"
    by (simp add: everyoneLeads_def)
  have bar: "readEx_r oldLeaderStepsDown (calls world0 @ [Read 2 ''/ConsistencyTest/test'']) = Inr ''bar''"
    by (simp add: oldLeaderStepsDown_def)
  show ?thesis
    using verifyRead_exit_status [OF foo] verifyRead_exit_status [OF bar]
    by (simp add: world0_def)
qed

subsection \<open>Whole runs\<close>

text \<open>
  Claim C3: when one pass over the address list finds no server that reports \<open>LEADER\<close>,
  the program is to fail fatally before the seed phase. The code departs from it:
  \<open>leaderPort\<close> returns the empty string when no server leads, and \<open>main\<close> does not look
  at it. With one server that reports \<open>FOLLOWER\<close>, the first block logs that it found the
  leader on an empty port, creates the directory, writes \<open>foo\<close> and asks for the partition
  of \<open>localhost:\<close>.
\<close>

theorem no_leader_found_proceeds:
  "seedAndPartition nobodyLeads \<lparr>cluster = ''a:1''\<rparr> world0 =
     (Inr [],
      \<lparr>calls = [Connect 0 ''a:1'', GetServerStats 0 ''a:1'',
                MakeDirectory 0 ''/ConsistencyTest'',
                Write 0 ''/ConsistencyTest/test'' ''foo'',
                MakePartition 0 ''localhost:'', Disconnect 0],
       log = [NOTICE (''Found leader on port , creating test file with '' @ [CHR 0x27] @ ''foo'' @ [CHR 0x27]),
              NOTICE ''Blocking process on port  from communicating with peers'',
              NOTICE ''Process on port  blocked from communicating with others.''],
       shell = [], handles = 1\<rparr>)"
proof -
  have "parseHostPortList ''a:1'' = Inr [(''a'', ''1'')]"
    by (simp add: parse_defs)
  then show ?thesis
    by (simp add: failover_defs prog_defs nobodyLeads_def)
qed

text \<open>
  Claim C1 as stated fails: here the old leader, asked on \<open>localhost:1\<close> after the new
  leader's write, still reports \<open>LEADER\<close>; the program reads from it and ends with status 0.
\<close>

theorem stale_leader_reads_counterexample:
  "failoverMain everyoneLeads \<lparr>cluster = ''a:1,b:2''\<rparr> world0 =
  Some (Exited 0,
   \<lparr>calls =
      [Connect 0 ''a:1,b:2'', GetServerStats 0 ''a:1'',
       MakeDirectory 0 ''/ConsistencyTest'',
       Write 0 ''/ConsistencyTest/test'' ''foo'',
       MakePartition 0 ''localhost:1'', Disconnect 0, Connect 1 ''b:2'',
       GetServerStats 1 ''b:2'', Write 1 ''/ConsistencyTest/test'' ''bar'',
       Disconnect 1, Connect 2 ''localhost:1'',
       GetServerStats 2 ''localhost:1'', Read 2 ''/ConsistencyTest/test'',
       Disconnect 2],
      log =
        [NOTICE ''Setting up artificial network latency...'',
         NOTICE ''Artificial latency setup complete.'',
         NOTICE (''Found leader on port 1, creating test file with '' @ [CHR 0x27] @ ''foo'' @ [CHR 0x27]),
         NOTICE ''Blocking process on port 1 from communicating with peers'',
         NOTICE ''Process on port 1 blocked from communicating with others.'',
         NOTICE ''Remaining hosts: b:2'',
         NOTICE ''Found NEW leader on port 2'', NOTICE ''Writing bar'',
         NOTICE ''Reconnect to old leader'',
         NOTICE ''Verifying old leader is still leader'',
         NOTICE ''Reading from old leader'', NOTICE ''Read foo'',
         NOTICE ''Consistency violation, foo != bar'',
         NOTICE ''Cleaning up nftables rules...'',
         NOTICE ''Cleanup complete.''],
      shell = [], handles = 3\<rparr>)"
proof -
  have "parseHostPortList ''a:1,b:2'' = Inr [(''a'', ''1''), (''b'', ''2'')]"
    and "parseHostPortList ''b:2'' = Inr [(''b'', ''2'')]"
    and "parseHostPortList ''localhost:1'' = Inr [(''localhost'', ''1'')]"
    and "joinHostPortList [(''b'', ''2'')] = ''b:2''"
    by (simp_all add: parse_defs joinHostPortList_def)
  then show ?thesis
    by (simp add: failover_defs prog_defs everyoneLeads_def)
qed

text \<open>
  Claim C2 as stated fails: the value read is \<open>foo\<close>, the violation is logged, and the
  exit status is 0.
\<close>

theorem stale_read_exits_zero_counterexample:
  "failoverMain everyoneLeads \<lparr>cluster = ''n1:5254,n2:5255''\<rparr> world0 =
   Some (Exited 0,
    \<lparr>calls =
      [Connect 0 ''n1:5254,n2:5255'', GetServerStats 0 ''n1:5254'',
       MakeDirectory 0 ''/ConsistencyTest'',
       Write 0 ''/ConsistencyTest/test'' ''foo'',
       MakePartition 0 ''localhost:5254'', Disconnect 0, Connect 1 ''n2:5255'',
       GetServerStats 1 ''n2:5255'', Write 1 ''/ConsistencyTest/test'' ''bar'',
       Disconnect 1, Connect 2 ''localhost:5254'',
       GetServerStats 2 ''localhost:5254'', Read 2 ''/ConsistencyTest/test'',
       Disconnect 2],
     log =
       [NOTICE ''Setting up artificial network latency...'',
        NOTICE ''Artificial latency setup complete.'',
        NOTICE (''Found leader on port 5254, creating test file with '' @ [CHR 0x27] @ ''foo'' @ [CHR 0x27]),
        NOTICE ''Blocking process on port 5254 from communicating with peers'',
        NOTICE ''Process on port 5254 blocked from communicating with others.'',
        NOTICE ''Remaining hosts: n2:5255'',
        NOTICE ''Found NEW leader on port 5255'', NOTICE ''Writing bar'',
        NOTICE ''Reconnect to old leader'',
        NOTICE ''Verifying old leader is still leader'',
        NOTICE ''Reading from old leader'', NOTICE ''Read foo'',
        NOTICE ''Consistency violation, foo != bar'',
        NOTICE ''Cleaning up nftables rules...'',
        NOTICE ''Cleanup complete.''],
     shell = [], handles = 3\<rparr>)"
proof -
  have "parseHostPortList ''n1:5254,n2:5255'' = Inr [(''n1'', ''5254''), (''n2'', ''5255'')]"
    and "parseHostPortList ''n2:5255'' = Inr [(''n2'', ''5255'')]"
    and "parseHostPortList ''localhost:5254'' = Inr [(''localhost'', ''5254'')]"
    and "joinHostPortList [(''n2'', ''5255'')] = ''n2:5255''"
    by (simp_all add: parse_defs joinHostPortList_def)
  then show ?thesis
    by (simp add: failover_defs prog_defs everyoneLeads_def)
qed

section \<open>The consistency loop\<close>

lemma consistencyLoop_step:
  "i < 10 \<Longrightarrow> consistencyLoop E options i =
     bnd (consistencyRound E options i) (\<lambda>_. consistencyLoop E options (i + 1))"
  by (rule ext) (simp add: consistencyLoop.simps [of E options i] bnd_def split: prod.splits sum.splits)

lemma consistencyLoop_end: "\<not> i < 10 \<Longrightarrow> consistencyLoop E options i = ret ()"
  by (rule ext) (simp add: consistencyLoop.simps [of E options i] ret_def)

lemma consistencyLoop_rounds:
  "consistencyLoop E options 0 = roundsInOrder E options [0, 1, 2, 3, 4, 5, 6, 7, 8, 9]"
  by (simp add: consistencyLoop_step consistencyLoop_end)

lemma to_string_digit: "0 \<le> i \<Longrightarrow> i < 10 \<Longrightarrow> to_string i = [digit (nat i)]"
  by (simp add: to_string_def to_string_nat.simps)

text \<open>
  Claim C7. The loop is ten rounds, for \<open>i\<close> from 0 to 9 in order, each entered only if
  the one before completed. In round \<open>i\<close>, when the cluster answers every call, the program
  opens a new handle, creates the directory and writes the decimal string of \<open>i\<close> to
  \<open>/ConsistencyTest/test\<close>, closes the handle, opens the next new handle and reads the same
  path; if the value read is the decimal string of \<open>i\<close> it sleeps and closes the handle,
  and otherwise the assertion aborts the process.
\<close>

theorem consistency_rounds:
  assumes "makeDirectoryEx_r E (calls s @ [Connect (handles s) (cluster options),
             MakeDirectory (handles s) ''/ConsistencyTest'']) = Inr ()"
    and "writeEx_r E (calls s @ [Connect (handles s) (cluster options),
             MakeDirectory (handles s) ''/ConsistencyTest'',
             Write (handles s) ''/ConsistencyTest/test'' (to_string i)]) = Inr ()"
    and "readEx_r E (calls s @ [Connect (handles s) (cluster options),
             MakeDirectory (handles s) ''/ConsistencyTest'',
             Write (handles s) ''/ConsistencyTest/test'' (to_string i),
             Disconnect (handles s),
             Connect (handles s + 1) (cluster options),
             Read (handles s + 1) ''/ConsistencyTest/test'']) = Inr contents"
  shows "consistencyLoop E options 0 = roundsInOrder E options [0, 1, 2, 3, 4, 5, 6, 7, 8, 9] \<and>
         consistencyRound E options i s =
           (if contents = to_string i
            then (Inr (),
                  \<lparr>calls = calls s @ [Connect (handles s) (cluster options),
                     MakeDirectory (handles s) ''/ConsistencyTest'',
                     Write (handles s) ''/ConsistencyTest/test'' (to_string i),
                     Disconnect (handles s),
                     Connect (handles s + 1) (cluster options),
                     Read (handles s + 1) ''/ConsistencyTest/test'',
                     Sleep 100,
                     Disconnect (handles s + 1)],
                   log = log s, shell = shell s, handles = handles s + 2\<rparr>)
            else (Inl (Abort ''Assertion failed''),
                  \<lparr>calls = calls s @ [Connect (handles s) (cluster options),
                     MakeDirectory (handles s) ''/ConsistencyTest'',
                     Write (handles s) ''/ConsistencyTest/test'' (to_string i),
                     Disconnect (handles s),
                     Connect (handles s + 1) (cluster options),
                     Read (handles s + 1) ''/ConsistencyTest/test''],
                   log = log s, shell = shell s, handles = handles s + 2\<rparr>))"
proof (cases s)
  case (fields c l sh n)
  have "consistencyRound E options i s = (if contents = to_string i
            then (Inr (),
                  \<lparr>calls = calls s @ [Connect (handles s) (cluster options),
                     MakeDirectory (handles s) ''/ConsistencyTest'',
                     Write (handles s) ''/ConsistencyTest/test'' (to_string i),
                     Disconnect (handles s),
                     Connect (handles s + 1) (cluster options),
                     Read (handles s + 1) ''/ConsistencyTest/test'',
                     Sleep 100,
                     Disconnect (handles s + 1)],
                   log = log s, shell = shell s, handles = handles s + 2\<rparr>)
            else (Inl (Abort ''Assertion failed''),
                  \<lparr>calls = calls s @ [Connect (handles s) (cluster options),
                     MakeDirectory (handles s) ''/ConsistencyTest'',
                     Write (handles s) ''/ConsistencyTest/test'' (to_string i),
                     Disconnect (handles s),
                     Connect (handles s + 1) (cluster options),
                     Read (handles s + 1) ''/ConsistencyTest/test''],
                   log = log s, shell = shell s, handles = handles s + 2\<rparr>))"
    using assms
    by (simp add: fields consistencyRound_def bnd_def withCluster_def openCluster_def
          makeDirectoryEx_def writeEx_def readEx_def invoke_def assert_def sleep_for_def Let_def)
  then show ?thesis
    using consistencyLoop_rounds [of E options] by (simp only: simp_thms)
qed


theorem consistency_rounds_witness:
  "to_string 7 = ''7'' \<and>
   consistencyLoop readsLastWrite \<lparr>cluster = ''a:1'', logPolicy = []\<rparr> 0 =
     roundsInOrder readsLastWrite \<lparr>cluster = ''a:1'', logPolicy = []\<rparr>
       [0, 1, 2, 3, 4, 5, 6, 7, 8, 9] \<and>
   consistencyRound readsLastWrite \<lparr>cluster = ''a:1'', logPolicy = []\<rparr> 7 world0 =
     (Inr (),
      \<lparr>calls = [Connect 0 ''a:1'', MakeDirectory 0 ''/ConsistencyTest'',
                Write 0 ''/ConsistencyTest/test'' ''7'', Disconnect 0,
                Connect 1 ''a:1'', Read 1 ''/ConsistencyTest/test'', Sleep 100, Disconnect 1],
       log = [], shell = [], handles = 2\<rparr>) \<and>
   consistencyRound everyoneLeads \<lparr>cluster = ''a:1'', logPolicy = []\<rparr> 7 world0 =
     (Inl (Abort ''Assertion failed''),
      \<lparr>calls = [Connect 0 ''a:1'', MakeDirectory 0 ''/ConsistencyTest'',
                Write 0 ''/ConsistencyTest/test'' ''7'', Disconnect 0,
                Connect 1 ''a:1'', Read 1 ''/ConsistencyTest/test''],
       log = [], shell = [], handles = 2\<rparr>)"
proof -
  let ?options = "\<lparr>cluster = ''a:1'', logPolicy = []\<rparr>"
  have seven: "to_string 7 = ''7''"
    by (simp add: to_string_def to_string_nat.simps digit_def)
  have good: "makeDirectoryEx_r readsLastWrite (calls world0 @
          [Connect (handles world0) (cluster ?options),
           MakeDirectory (handles world0) ''/ConsistencyTest'']) = Inr ()"
      "writeEx_r readsLastWrite (calls world0 @
          [Connect (handles world0) (cluster ?options),
           MakeDirectory (handles world0) ''/ConsistencyTest'',
           Write (handles world0) ''/ConsistencyTest/test'' (to_string 7)]) = Inr ()"
      "readEx_r readsLastWrite (calls world0 @
          [Connect (handles world0) (cluster ?options),
           MakeDirectory (handles world0) ''/ConsistencyTest'',
           Write (handles world0) ''/ConsistencyTest/test'' (to_string 7),
           Disconnect (handles world0),
           Connect (handles world0 + 1) (cluster ?options),
           Read (handles world0 + 1) ''/ConsistencyTest/test'']) = Inr ''7''"
    by (simp_all add: readsLastWrite_def world0_def seven)
  have stale: "makeDirectoryEx_r everyoneLeads (calls world0 @
          [Connect (handles world0) (cluster ?options),
           MakeDirectory (handles world0) ''/ConsistencyTest'']) = Inr ()"
      "writeEx_r everyoneLeads (calls world0 @
          [Connect (handles world0) (cluster ?options),
           MakeDirectory (handles world0) ''/ConsistencyTest'',
           Write (handles world0) ''/ConsistencyTest/test'' (to_string 7)]) = Inr ()"
      "readEx_r everyoneLeads (calls world0 @
          [Connect (handles world0) (cluster ?options),
           MakeDirectory (handles world0) ''/ConsistencyTest'',
           Write (handles world0) ''/ConsistencyTest/test'' (to_string 7),
           Disconnect (handles world0),
           Connect (handles world0 + 1) (cluster ?options),
           Read (handles world0 + 1) ''/ConsistencyTest/test'']) = Inr ''foo''"
    by (simp_all add: everyoneLeads_def)
  show ?thesis
    using consistency_rounds [OF good] consistency_rounds [OF stale]
    by (simp add: seven world0_def)
qed

text \<open>The whole run against a cluster that returns what was written last.\<close>

lemma consistencyMain_ten_rounds:
  "consistencyMain readsLastWrite \<lparr>cluster = ''a:1'', logPolicy = []\<rparr> world0 =
     (Exited 0,
      \<lparr>calls = [
        Connect 0 ''a:1'', MakeDirectory 0 ''/ConsistencyTest'', Write 0 ''/ConsistencyTest/test'' ''0'', Disconnect 0,
        Connect 1 ''a:1'', Read 1 ''/ConsistencyTest/test'', Sleep 100, Disconnect 1,
        Connect 2 ''a:1'', MakeDirectory 2 ''/ConsistencyTest'', Write 2 ''/ConsistencyTest/test'' ''1'', Disconnect 2,
        Connect 3 ''a:1'', Read 3 ''/ConsistencyTest/test'', Sleep 100, Disconnect 3,
        Connect 4 ''a:1'', MakeDirectory 4 ''/ConsistencyTest'', Write 4 ''/ConsistencyTest/test'' ''2'', Disconnect 4,
        Connect 5 ''a:1'', Read 5 ''/ConsistencyTest/test'', Sleep 100, Disconnect 5,
        Connect 6 ''a:1'', MakeDirectory 6 ''/ConsistencyTest'', Write 6 ''/ConsistencyTest/test'' ''3'', Disconnect 6,
        Connect 7 ''a:1'', Read 7 ''/ConsistencyTest/test'', Sleep 100, Disconnect 7,
        Connect 8 ''a:1'', MakeDirectory 8 ''/ConsistencyTest'', Write 8 ''/ConsistencyTest/test'' ''4'', Disconnect 8,
        Connect 9 ''a:1'', Read 9 ''/ConsistencyTest/test'', Sleep 100, Disconnect 9,
        Connect 10 ''a:1'', MakeDirectory 10 ''/ConsistencyTest'', Write 10 ''/ConsistencyTest/test'' ''5'', Disconnect 10,
        Connect 11 ''a:1'', Read 11 ''/ConsistencyTest/test'', Sleep 100, Disconnect 11,
        Connect 12 ''a:1'', MakeDirectory 12 ''/ConsistencyTest'', Write 12 ''/ConsistencyTest/test'' ''6'', Disconnect 12,
        Connect 13 ''a:1'', Read 13 ''/ConsistencyTest/test'', Sleep 100, Disconnect 13,
        Connect 14 ''a:1'', MakeDirectory 14 ''/ConsistencyTest'', Write 14 ''/ConsistencyTest/test'' ''7'', Disconnect 14,
        Connect 15 ''a:1'', Read 15 ''/ConsistencyTest/test'', Sleep 100, Disconnect 15,
        Connect 16 ''a:1'', MakeDirectory 16 ''/ConsistencyTest'', Write 16 ''/ConsistencyTest/test'' ''8'', Disconnect 16,
        Connect 17 ''a:1'', Read 17 ''/ConsistencyTest/test'', Sleep 100, Disconnect 17,
        Connect 18 ''a:1'', MakeDirectory 18 ''/ConsistencyTest'', Write 18 ''/ConsistencyTest/test'' ''9'', Disconnect 18,
        Connect 19 ''a:1'', Read 19 ''/ConsistencyTest/test'', Sleep 100, Disconnect 19],
       log = [], shell = [], handles = 20\<rparr>)"
  by (simp add: consistencyMain_def consistencyLoop_rounds consistencyRound_def bnd_def ret_def
        withCluster_def openCluster_def makeDirectoryEx_def writeEx_def readEx_def invoke_def
        assert_def sleep_for_def Let_def readsLastWrite_def world0_def
        to_string_def to_string_nat.simps digit_def)

end
